theory Spec2Isabelle
  imports Complex_Main
begin

section \<open>SuperCompose: superquadric mesh generation and parameter persistence\<close>

text \<open>
  The development embeds three functions of \<^verbatim>\<open>gui_rot.py\<close>:
  \<^verbatim>\<open>generate_superquadric_mesh\<close>, \<^verbatim>\<open>load_superquadrics\<close> and the method
  \<^verbatim>\<open>save_object\<close>, together with the class \<^verbatim>\<open>Superquadric\<close> they share.

  Numbers. A Python \<^verbatim>\<open>float\<close> is modelled by a real number, so rounding, overflow
  and underflow of IEEE doubles are abstracted. The only operation of the mesh generator
  that can leave the finite numbers is the power \<^verbatim>\<open>**\<close>; its result is therefore a
  \<open>real option\<close>, where \<open>None\<close> stands for the non-finite values (an infinity or NaN),
  and a product with a non-finite factor is non-finite again.
\<close>

subsection \<open>Python errors and ranges\<close>

datatype error = ValueError | TypeError | KeyError | IndexError | AttributeError
  | FileNotFoundError

definition range_py :: "int \<Rightarrow> int list" where
  \<comment> \<open>\<^verbatim>\<open>range(k)\<close>: empty when \<open>k \<le> 0\<close>.\<close>
  "range_py k = map int [0..<nat k]"

subsection \<open>Faces of the mesh\<close>

text \<open>
  \<^verbatim>\<open>
  faces = []
  for i in range(num_points - 1):
      for j in range(num_points - 1):
          idx = i * num_points + j
          faces.append([idx, idx + 1, idx + num_points])
          faces.append([idx + 1, idx + num_points + 1, idx + num_points])
  \<close>
  The list \<^verbatim>\<open>faces\<close> is the state threaded through both loops.
\<close>

definition face_step :: "int \<Rightarrow> int \<Rightarrow> int \<Rightarrow> int list list \<Rightarrow> int list list" where
  "face_step num_points i j faces =
     (let idx = i * num_points + j;
          faces1 = faces @ [[idx, idx + 1, idx + num_points]];
          faces2 = faces1 @ [[idx + 1, idx + num_points + 1, idx + num_points]]
      in faces2)"

definition build_faces :: "int \<Rightarrow> int list list" where
  "build_faces num_points =
     fold (\<lambda>i faces. fold (\<lambda>j faces'. face_step num_points i j faces')
                           (range_py (num_points - 1)) faces)
          (range_py (num_points - 1)) []"

text \<open>The two triangles of the grid cell \<open>(i, j)\<close>, as the specification lists them.\<close>

definition cell_faces :: "int \<Rightarrow> int \<Rightarrow> int \<Rightarrow> int list list" where
  "cell_faces n i j =
     [[i * n + j, i * n + j + 1, i * n + j + n],
      [i * n + j + 1, i * n + j + n + 1, i * n + j + n]]"

subsection \<open>Vertices of the mesh\<close>

text \<open>
  \<^verbatim>\<open>np.linspace(start, stop, num)\<close> belongs to numpy. It raises \<^verbatim>\<open>ValueError\<close> for a
  negative \<^verbatim>\<open>num\<close>; otherwise it computes \<^verbatim>\<open>arange(num) * step + start\<close> with
  \<^verbatim>\<open>step = (stop - start) / (num - 1)\<close> (and \<^verbatim>\<open>arange(num) * (stop - start) + start\<close>
  when \<^verbatim>\<open>num - 1\<close> is not positive), and for \<^verbatim>\<open>num > 1\<close> overwrites the last
  sample by \<^verbatim>\<open>stop\<close>.
\<close>

definition linspace :: "real \<Rightarrow> real \<Rightarrow> int \<Rightarrow> error + real list" where
  "linspace start stop num =
     (if num < 0 then Inl ValueError
      else let dv = num - 1;
               delta = stop - start;
               y = (if 0 < dv
                    then map (\<lambda>k. real_of_int k * (delta / real_of_int dv) + start) (range_py num)
                    else map (\<lambda>k. real_of_int k * delta + start) (range_py num));
               y' = (if 1 < num then y[nat (num - 1) := stop] else y)
           in Inr y')"

text \<open>
  \<^verbatim>\<open>np.meshgrid(xs, ys)\<close> with its default indexing \<^verbatim>\<open>'xy'\<close> returns two arrays of
  \<^verbatim>\<open>len(ys)\<close> rows and \<^verbatim>\<open>len(xs)\<close> columns: the first repeats \<^verbatim>\<open>xs\<close> in every
  row, the second holds \<^verbatim>\<open>ys[i]\<close> throughout row \<^verbatim>\<open>i\<close>. A two-dimensional array is a
  list of rows.
\<close>

definition meshgrid :: "'a list \<Rightarrow> 'a list \<Rightarrow> 'a list list \<times> 'a list list" where
  "meshgrid xs ys = (replicate (length ys) xs, map (\<lambda>y. replicate (length xs) y) ys)"

definition arr_map :: "('a \<Rightarrow> 'b) \<Rightarrow> 'a list list \<Rightarrow> 'b list list" where
  \<comment> \<open>a numpy function applied to every element\<close>
  "arr_map f A = map (map f) A"

definition arr_map2 :: "('a \<Rightarrow> 'b \<Rightarrow> 'c) \<Rightarrow> 'a list list \<Rightarrow> 'b list list \<Rightarrow> 'c list list" where
  \<comment> \<open>a binary numpy operation on two arrays of the same shape\<close>
  "arr_map2 f A B = map2 (map2 f) A B"

definition flatten :: "'a list list \<Rightarrow> 'a list" where
  \<comment> \<open>\<^verbatim>\<open>A.flatten()\<close>: row-major (C order)\<close>
  "flatten A = concat A"

definition np_sign :: "real \<Rightarrow> real" where
  "np_sign v = (if v < 0 then - 1 else if v = 0 then 0 else 1)"

definition np_power :: "real \<Rightarrow> real \<Rightarrow> real option" where
  \<comment> \<open>\<^verbatim>\<open>b ** e\<close>, exact where it is a real number: infinite for \<open>0 ** e\<close> with
      \<open>e < 0\<close>, NaN for a negative base with an exponent that is not an integer; the
      overflow of a double power is not modelled\<close>
  "np_power b e =
     (if 0 < b then Some (b powr e)
      else if b = 0 then (if 0 < e then Some 0 else if e = 0 then Some 1 else None)
      else if e = of_int \<lfloor>e\<rfloor> then Some ((if even \<lfloor>e\<rfloor> then 1 else - 1) * (\<bar>b\<bar> powr e))
      else None)"

definition fl_mul :: "real option \<Rightarrow> real option \<Rightarrow> real option" where
  \<comment> \<open>the exact product, neither rounded nor overflowing; it is finite only if both
      factors are\<close>
  "fl_mul u v = (case u of None \<Rightarrow> None
                 | Some a \<Rightarrow> (case v of None \<Rightarrow> None | Some b \<Rightarrow> Some (a * b)))"

type_synonym vertex = "real option \<times> real option \<times> real option"

text \<open>
  \<^verbatim>\<open>
  def generate_superquadric_mesh(a1, a2, a3, epsilon1, epsilon2, num_points=50):
      phi, theta = np.meshgrid(
          np.linspace(-np.pi / 2, np.pi / 2, num_points),
          np.linspace(-np.pi, np.pi, num_points))
      x = a1 * np.sign(np.cos(phi)) * np.abs(np.cos(phi))**epsilon1
             * np.sign(np.cos(theta)) * np.abs(np.cos(theta))**epsilon2
      y = a2 * np.sign(np.cos(phi)) * np.abs(np.cos(phi))**epsilon1
             * np.sign(np.sin(theta)) * np.abs(np.sin(theta))**epsilon2
      z = a3 * np.sign(np.sin(phi)) * np.abs(np.sin(phi))**epsilon1
      vertices = np.vstack((x.flatten(), y.flatten(), z.flatten())).T
      faces = ...
      return vertices, np.array(faces)
  \<close>
  The products associate to the left, as Python evaluates them. A row of
  \<^verbatim>\<open>vertices\<close> is a triple.
\<close>

definition generate_superquadric_mesh ::
  "real \<Rightarrow> real \<Rightarrow> real \<Rightarrow> real \<Rightarrow> real \<Rightarrow> int \<Rightarrow> error + (vertex list \<times> int list list)" where
  "generate_superquadric_mesh a1 a2 a3 epsilon1 epsilon2 num_points =
     (case linspace (- pi / 2) (pi / 2) num_points of Inl err \<Rightarrow> Inl err
      | Inr phis \<Rightarrow>
     (case linspace (- pi) pi num_points of Inl err \<Rightarrow> Inl err
      | Inr thetas \<Rightarrow>
     (let (phi, theta) = meshgrid phis thetas;
          x = arr_map2 fl_mul
                (arr_map2 fl_mul
                  (arr_map2 fl_mul
                    (arr_map Some (arr_map (\<lambda>s. a1 * s) (arr_map np_sign (arr_map cos phi))))
                    (arr_map (\<lambda>b. np_power b epsilon1) (arr_map abs (arr_map cos phi))))
                  (arr_map Some (arr_map np_sign (arr_map cos theta))))
                (arr_map (\<lambda>b. np_power b epsilon2) (arr_map abs (arr_map cos theta)));
          y = arr_map2 fl_mul
                (arr_map2 fl_mul
                  (arr_map2 fl_mul
                    (arr_map Some (arr_map (\<lambda>s. a2 * s) (arr_map np_sign (arr_map cos phi))))
                    (arr_map (\<lambda>b. np_power b epsilon1) (arr_map abs (arr_map cos phi))))
                  (arr_map Some (arr_map np_sign (arr_map sin theta))))
                (arr_map (\<lambda>b. np_power b epsilon2) (arr_map abs (arr_map sin theta)));
          z = arr_map2 fl_mul
                (arr_map Some (arr_map (\<lambda>s. a3 * s) (arr_map np_sign (arr_map sin phi))))
                (arr_map (\<lambda>b. np_power b epsilon1) (arr_map abs (arr_map sin phi)));
          vertices = zip (flatten x) (zip (flatten y) (flatten z));
          faces = build_faces num_points
      in Inr (vertices, faces))))"

text \<open>
  The closed form of the specification: the sign-preserving power
  \<open>spow(v, e) = sign(v) * |v|^e\<close>, the surface point of a pair \<open>(phi, theta)\<close>, and
  sample \<open>k\<close> of \<open>n\<close> uniform samples of an interval.
\<close>

definition spow :: "real \<Rightarrow> real \<Rightarrow> real option" where
  "spow v e = fl_mul (Some (sgn v)) (np_power \<bar>v\<bar> e)"

definition superquadric_point ::
  "real \<Rightarrow> real \<Rightarrow> real \<Rightarrow> real \<Rightarrow> real \<Rightarrow> real \<Rightarrow> real \<Rightarrow> vertex" where
  "superquadric_point a1 a2 a3 e1 e2 phi theta =
     (fl_mul (fl_mul (Some a1) (spow (cos phi) e1)) (spow (cos theta) e2),
      fl_mul (fl_mul (Some a2) (spow (cos phi) e1)) (spow (sin theta) e2),
      fl_mul (Some a3) (spow (sin phi) e1))"

definition uniform_sample :: "real \<Rightarrow> real \<Rightarrow> int \<Rightarrow> nat \<Rightarrow> real" where
  "uniform_sample lo hi n k = lo + real k * (hi - lo) / real_of_int (n - 1)"

definition scale_vertex :: "real \<Rightarrow> real \<Rightarrow> real \<Rightarrow> vertex \<Rightarrow> vertex" where
  \<comment> \<open>the componentwise product \<open>(a1 * x, a2 * y, a3 * z)\<close>\<close>
  "scale_vertex a1 a2 a3 v =
     (case v of (x, y, z) \<Rightarrow> (fl_mul (Some a1) x, fl_mul (Some a2) y, fl_mul (Some a3) z))"

definition finite_within :: "real \<Rightarrow> real \<Rightarrow> real option \<Rightarrow> bool" where
  \<comment> \<open>a coordinate that is a finite number of the interval \<open>[lo, hi]\<close>\<close>
  "finite_within lo hi c = (case c of None \<Rightarrow> False | Some r \<Rightarrow> lo \<le> r \<and> r \<le> hi)"

definition is_finite :: "real option \<Rightarrow> bool" where
  "is_finite c = (case c of None \<Rightarrow> False | Some r \<Rightarrow> True)"

definition norm_sq :: "vertex \<Rightarrow> real option" where
  \<comment> \<open>the squared Euclidean norm of a vertex with finite coordinates\<close>
  "norm_sq v = (case v of (Some x, Some y, Some z) \<Rightarrow> Some (x * x + y * y + z * z)
               | _ \<Rightarrow> None)"

subsection \<open>The class Superquadric and JSON values\<close>

text \<open>
  An object of the class \<^verbatim>\<open>Superquadric\<close> holds seventeen widgets of the GUI toolkit.
  The toolkit is not part of the repository: a widget is modelled by the number that its
  \<^verbatim>\<open>double_value\<close> returns, and \<^verbatim>\<open>set_value\<close> stores its argument.
\<close>

record superquadric =
  sq_a1 :: real
  sq_a2 :: real
  sq_a3 :: real
  sq_e1 :: real
  sq_e2 :: real
  sq_x :: real
  sq_y :: real
  sq_z :: real
  sq_r11 :: real
  sq_r12 :: real
  sq_r13 :: real
  sq_r21 :: real
  sq_r22 :: real
  sq_r23 :: real
  sq_r31 :: real
  sq_r32 :: real
  sq_r33 :: real

text \<open>
  What \<^verbatim>\<open>json.load\<close> returns and \<^verbatim>\<open>json.dump\<close> accepts. A file holds one JSON value;
  \<^verbatim>\<open>json.dump\<close> followed by \<^verbatim>\<open>json.load\<close> returns the value written, since a double
  is printed with enough digits to be read back unchanged.
\<close>

datatype json = JNull | JBool bool | JNum real | JStr string | JArr "json list"
  | JObj "(string \<times> json) list"

type_synonym files = "string \<rightharpoonup> json"

definition bind_res :: "error + 'a \<Rightarrow> ('a \<Rightarrow> error + 'b) \<Rightarrow> error + 'b" where
  \<comment> \<open>sequencing: an exception of the first step ends the computation\<close>
  "bind_res r f = (case r of Inl err \<Rightarrow> Inl err | Inr v \<Rightarrow> f v)"

definition py_getitem_str :: "json \<Rightarrow> string \<Rightarrow> error + json" where
  \<comment> \<open>\<^verbatim>\<open>v['key']\<close>; in a dict read from a file the last of several equal keys counts\<close>
  "py_getitem_str v key =
     (case v of
        JObj kvs \<Rightarrow> (case map_of (rev kvs) key of None \<Rightarrow> Inl KeyError | Some w \<Rightarrow> Inr w)
      | _ \<Rightarrow> Inl TypeError)"

definition py_getitem_int :: "json \<Rightarrow> nat \<Rightarrow> error + json" where
  \<comment> \<open>\<^verbatim>\<open>v[i]\<close> for one of the literal indices 0, 1, 2\<close>
  "py_getitem_int v i =
     (case v of
        JArr xs \<Rightarrow> (if i < length xs then Inr (xs ! i) else Inl IndexError)
      | JStr cs \<Rightarrow> (if i < length cs then Inr (JStr [cs ! i]) else Inl IndexError)
      | JObj kvs \<Rightarrow> Inl KeyError
      | _ \<Rightarrow> Inl TypeError)"

definition py_iter :: "json \<Rightarrow> error + json list" where
  \<comment> \<open>the elements a \<^verbatim>\<open>for\<close> loop visits: of a list its items, of a dict its keys,
      of a string its characters\<close>
  "py_iter v =
     (case v of
        JArr xs \<Rightarrow> Inr xs
      | JObj kvs \<Rightarrow> Inr (map JStr (rev (remdups (rev (map fst kvs)))))
      | JStr cs \<Rightarrow> Inr (map (\<lambda>c. JStr [c]) cs)
      | _ \<Rightarrow> Inl TypeError)"

definition to_double :: "json \<Rightarrow> error + real" where
  \<comment> \<open>the argument conversion of \<^verbatim>\<open>set_value\<close>: a number, or a Boolean as 0 or 1\<close>
  "to_double v =
     (case v of JNum r \<Rightarrow> Inr r | JBool b \<Rightarrow> Inr (if b then 1 else 0) | _ \<Rightarrow> Inl TypeError)"

definition num_at :: "json \<Rightarrow> nat \<Rightarrow> error + real" where
  \<comment> \<open>\<^verbatim>\<open>w.set_value(v[i])\<close>: the value stored\<close>
  "num_at v i = bind_res (py_getitem_int v i) to_double"

definition num_at2 :: "json \<Rightarrow> nat \<Rightarrow> nat \<Rightarrow> error + real" where
  \<comment> \<open>\<^verbatim>\<open>w.set_value(v[i][j])\<close>\<close>
  "num_at2 v i j = bind_res (py_getitem_int v i) (\<lambda>row. num_at row j)"

text \<open>
  \<^verbatim>\<open>
  def set_values(self, scale, position, epsilon1, epsilon2, rotation):
      self.a1.set_value(scale[0]) ... self.a3.set_value(scale[2])
      self.e1 = gui.NumberEdit(gui.NumberEdit.DOUBLE)
      self.e2 = gui.NumberEdit(gui.NumberEdit.DOUBLE)
      self.e1.set_value(epsilon1)
      self.e2.set_value(epsilon2)
      self.x.set_value(position[0]) ... self.z.set_value(position[2])
      self.r11.set_value(rotation[0][0]) ... self.r33.set_value(rotation[2][2])
  \<close>
\<close>

definition set_values ::
  "superquadric \<Rightarrow> json \<Rightarrow> json \<Rightarrow> json \<Rightarrow> json \<Rightarrow> json \<Rightarrow> error + superquadric" where
  "set_values self scale position epsilon1 epsilon2 rotation =
     bind_res (num_at scale 0) (\<lambda>a1.
     bind_res (num_at scale 1) (\<lambda>a2.
     bind_res (num_at scale 2) (\<lambda>a3.
     bind_res (to_double epsilon1) (\<lambda>e1.
     bind_res (to_double epsilon2) (\<lambda>e2.
     bind_res (num_at position 0) (\<lambda>x.
     bind_res (num_at position 1) (\<lambda>y.
     bind_res (num_at position 2) (\<lambda>z.
     bind_res (num_at2 rotation 0 0) (\<lambda>r11.
     bind_res (num_at2 rotation 0 1) (\<lambda>r12.
     bind_res (num_at2 rotation 0 2) (\<lambda>r13.
     bind_res (num_at2 rotation 1 0) (\<lambda>r21.
     bind_res (num_at2 rotation 1 1) (\<lambda>r22.
     bind_res (num_at2 rotation 1 2) (\<lambda>r23.
     bind_res (num_at2 rotation 2 0) (\<lambda>r31.
     bind_res (num_at2 rotation 2 1) (\<lambda>r32.
     bind_res (num_at2 rotation 2 2) (\<lambda>r33.
     Inr (self\<lparr>sq_a1 := a1, sq_a2 := a2, sq_a3 := a3, sq_e1 := e1, sq_e2 := e2,
               sq_x := x, sq_y := y, sq_z := z,
               sq_r11 := r11, sq_r12 := r12, sq_r13 := r13,
               sq_r21 := r21, sq_r22 := r22, sq_r23 := r23,
               sq_r31 := r31, sq_r32 := r32, sq_r33 := r33\<rparr>))))))))))))))))))"

subsection \<open>Loading\<close>

text \<open>
  \<^verbatim>\<open>
  def load_superquadrics(filename):
      with open(filename, 'r') as file:
          data = json.load(file)
      superquadrics = []
      for component in data['components']:
          sq = Superquadric()
          sq.set_values(scale=component['scale'], position=component['position'],
              epsilon1=component['epsilon1'], epsilon2=component['epsilon2'],
              rotation=component['rotation'])
          superquadrics.append(sq)
      return superquadrics
  \<close>
  The parameter \<open>fresh\<close> is the object that \<^verbatim>\<open>Superquadric()\<close> creates: the initial
  values of its widgets are the toolkit's. The key \<^verbatim>\<open>'components'\<close> is the one under
  which \<^verbatim>\<open>save_sq_json\<close> of \<^verbatim>\<open>save_json.py\<close> stores its list.
\<close>

fun load_loop :: "superquadric \<Rightarrow> json list \<Rightarrow> superquadric list \<Rightarrow> error + superquadric list"
  where
  "load_loop fresh [] superquadrics = Inr superquadrics"
| "load_loop fresh (component # rest) superquadrics =
     bind_res (py_getitem_str component ''scale'') (\<lambda>scale.
     bind_res (py_getitem_str component ''position'') (\<lambda>position.
     bind_res (py_getitem_str component ''epsilon1'') (\<lambda>epsilon1.
     bind_res (py_getitem_str component ''epsilon2'') (\<lambda>epsilon2.
     bind_res (py_getitem_str component ''rotation'') (\<lambda>rotation.
     bind_res (set_values fresh scale position epsilon1 epsilon2 rotation) (\<lambda>sq.
     load_loop fresh rest (superquadrics @ [sq])))))))"

definition load_superquadrics :: "superquadric \<Rightarrow> string \<Rightarrow> files \<Rightarrow> error + superquadric list"
  where
  "load_superquadrics fresh filename fs =
     (case fs filename of
        None \<Rightarrow> Inl FileNotFoundError
      | Some data \<Rightarrow>
          bind_res (py_getitem_str data ''components'') (\<lambda>components.
          bind_res (py_iter components) (\<lambda>items.
          load_loop fresh items [])))"

subsection \<open>Saving\<close>

definition OUTPUT_JSON :: string where
  "OUTPUT_JSON = ''objects.json''"

definition py_round2 :: "real \<Rightarrow> real" where
  \<comment> \<open>\<^verbatim>\<open>round(v, 2)\<close>: to the nearest multiple of 0.01, a tie to the even one\<close>
  "py_round2 v =
     (let s = v * 100; f = \<lfloor>s\<rfloor>; d = s - of_int f
      in (if d < 1 / 2 then of_int f
          else if 1 / 2 < d then of_int (f + 1)
          else if even f then of_int f else of_int (f + 1)) / 100)"

text \<open>
  The part of the window that \<^verbatim>\<open>save_object\<close> reads: the text of the description box
  and the list \<^verbatim>\<open>self.sqs\<close>.
\<close>

record app_window =
  textbox_text_value :: string
  win_sqs :: "superquadric list"

text \<open>
  \<^verbatim>\<open>
  for sq in self.sqs:
      if sq.a1.double_value == 0 or sq.a2.double_value == 0 or sq.a3.double_value == 0:
          continue
      rotation = [[r11, r12, r13], [r21, r22, r23], [r31, r32, r33]]
      scale = [a1, a2, a3]
      position = [x, y, z]
      sq_data = {"scale": scale, "rotation": rotation, "position": position,
                 "epsilon1": round(sq.e1.double_value, 2),
                 "epsilon2": round(sq.e2.double_value, 2)}
      superquadrics.append(sq_data)
  \<close>
\<close>

definition sq_data :: "superquadric \<Rightarrow> json" where
  "sq_data sq =
     (let rotation = JArr [JArr [JNum (sq_r11 sq), JNum (sq_r12 sq), JNum (sq_r13 sq)],
                           JArr [JNum (sq_r21 sq), JNum (sq_r22 sq), JNum (sq_r23 sq)],
                           JArr [JNum (sq_r31 sq), JNum (sq_r32 sq), JNum (sq_r33 sq)]];
          scale = JArr [JNum (sq_a1 sq), JNum (sq_a2 sq), JNum (sq_a3 sq)];
          position = JArr [JNum (sq_x sq), JNum (sq_y sq), JNum (sq_z sq)]
      in JObj [(''scale'', scale), (''rotation'', rotation), (''position'', position),
               (''epsilon1'', JNum (py_round2 (sq_e1 sq))),
               (''epsilon2'', JNum (py_round2 (sq_e2 sq)))])"

definition save_step :: "superquadric \<Rightarrow> json list \<Rightarrow> json list" where
  "save_step sq superquadrics =
     (if sq_a1 sq = 0 \<or> sq_a2 sq = 0 \<or> sq_a3 sq = 0 then superquadrics
      else superquadrics @ [sq_data sq])"

definition saved_superquadrics :: "app_window \<Rightarrow> json list" where
  \<comment> \<open>the list \<^verbatim>\<open>superquadrics\<close> after the loop\<close>
  "saved_superquadrics self = fold save_step (win_sqs self) []"

text \<open>
  \<^verbatim>\<open>
  new_entry = {"description": description, "superquadrics": superquadrics}
  if os.path.exists(OUTPUT_JSON):
      with open(OUTPUT_JSON, "r") as file:
          data = json.load(file)
  else:
      data = []
  data.append(new_entry)
  with open(OUTPUT_JSON, "w") as file:
      json.dump(data, file, indent=4)
  \<close>
  Only a list has the method \<^verbatim>\<open>append\<close>.
\<close>

definition save_object :: "app_window \<Rightarrow> files \<Rightarrow> error + files" where
  "save_object self fs =
     (let description = textbox_text_value self;
          superquadrics = saved_superquadrics self;
          new_entry = JObj [(''description'', JStr description),
                            (''superquadrics'', JArr superquadrics)];
          data = (case fs OUTPUT_JSON of Some d \<Rightarrow> d | None \<Rightarrow> JArr [])
      in case data of
           JArr entries \<Rightarrow> Inr (fs(OUTPUT_JSON \<mapsto> JArr (entries @ [new_entry])))
         | _ \<Rightarrow> Inl AttributeError)"

definition nonzero_axes :: "superquadric \<Rightarrow> bool" where
  \<comment> \<open>all three semi-axes are nonzero\<close>
  "nonzero_axes sq = (sq_a1 sq \<noteq> 0 \<and> sq_a2 sq \<noteq> 0 \<and> sq_a3 sq \<noteq> 0)"

definition rounded :: "superquadric \<Rightarrow> superquadric" where
  \<comment> \<open>the entry with both exponents rounded to 2 decimal places\<close>
  "rounded sq = sq\<lparr>sq_e1 := py_round2 (sq_e1 sq), sq_e2 := py_round2 (sq_e2 sq)\<rparr>"

subsection \<open>Products of doubles\<close>

text \<open>
  One property below depends on how a product of doubles is rounded. For it, an element
  of line 80 or 81,
  \<^verbatim>\<open>a * np.sign(c) * np.abs(c)**epsilon1 * np.sign(t) * np.abs(t)**epsilon2\<close>,
  is embedded a second time, in IEEE binary64 arithmetic: a product is the exact product
  rounded to the nearest double, a tie to the even significand, and is an infinity
  (\<open>None\<close>) when it overflows. The doubles \<^verbatim>\<open>c = np.cos(phi)\<close>, \<^verbatim>\<open>t = np.sin(theta)\<close>
  and the two powers are computed by numpy and enter as arguments.
\<close>

definition round_half_even :: "real \<Rightarrow> int" where
  "round_half_even s =
     (let f = \<lfloor>s\<rfloor>; d = s - of_int f
      in if d < 1 / 2 then f else if 1 / 2 < d then f + 1
         else if even f then f else f + 1)"

definition round_double :: "real \<Rightarrow> real option" where
  "round_double x =
     (if x = 0 then Some 0
      else let k = max (\<lfloor>log 2 \<bar>x\<bar>\<rfloor> - 52) (- 1074);
               r = of_int (round_half_even (x / 2 powr of_int k)) * 2 powr of_int k
           in if 2 powr 1024 \<le> \<bar>r\<bar> then None else Some r)"

definition double_mul :: "real option \<Rightarrow> real option \<Rightarrow> real option" where
  "double_mul u v = (case u of None \<Rightarrow> None
                 | Some a \<Rightarrow> (case v of None \<Rightarrow> None | Some b \<Rightarrow> round_double (a * b)))"

definition double_coordinate :: "real \<Rightarrow> real \<Rightarrow> real \<Rightarrow> real \<Rightarrow> real \<Rightarrow> real option" where
  "double_coordinate a c pw1 t pw2 =
     double_mul
       (double_mul (double_mul (double_mul (Some a) (Some (np_sign c))) (Some pw1))
          (Some (np_sign t)))
       (Some pw2)"

text \<open>
  The first samples of the grid are \<^verbatim>\<open>phi = -np.pi / 2\<close> and \<^verbatim>\<open>theta = -np.pi\<close>. There
  numpy returns \<^verbatim>\<open>np.cos(phi) = 0x1.1a62633145c07p-54\<close> (6.123233995736766e-17) and
  \<^verbatim>\<open>np.sin(theta) = -0x1.1a62633145c07p-53\<close> (-1.2246467991473532e-16); a power with
  exponent 1 returns its base.
\<close>

definition cos_phi0_double :: real where
  "cos_phi0_double = 4967757600021511 / 2 ^ 106"

definition sin_theta0_double :: real where
  "sin_theta0_double = - (4967757600021511 / 2 ^ 105)"

definition unit_sq :: superquadric where
  \<comment> \<open>an example entry: the unit sphere at the origin, not rotated\<close>
  "unit_sq = \<lparr>sq_a1 = 1, sq_a2 = 1, sq_a3 = 1, sq_e1 = 1, sq_e2 = 1,
              sq_x = 0, sq_y = 0, sq_z = 0,
              sq_r11 = 1, sq_r12 = 0, sq_r13 = 0,
              sq_r21 = 0, sq_r22 = 1, sq_r23 = 0,
              sq_r31 = 0, sq_r32 = 0, sq_r33 = 1\<rparr>"

subsection \<open>Helper lemmas on lists\<close>

lemma fold_append_concat:
  "fold (\<lambda>x acc. acc @ f x) xs acc0 = acc0 @ concat (map f xs)"
  by (induction xs arbitrary: acc0) simp_all

lemma concat_uniform_length:
  "(\<And>x. x \<in> set xs \<Longrightarrow> length (f x) = c) \<Longrightarrow> length (concat (map f xs)) = length xs * c"
  by (induction xs) simp_all

lemma concat_uniform_nth:
  "(\<And>x. x \<in> set xs \<Longrightarrow> length (f x) = c) \<Longrightarrow> i < length xs \<Longrightarrow> r < c
   \<Longrightarrow> concat (map f xs) ! (i * c + r) = f (xs ! i) ! r"
proof (induction xs arbitrary: i)
  case Nil
  then show ?case by simp
next
  case (Cons x xs)
  show ?case
  proof (cases i)
    case 0
    with Cons.prems show ?thesis by (simp add: nth_append)
  next
    case (Suc k)
    have len: "length (f x) = c" using Cons.prems(1) by simp
    have "concat (map f xs) ! (k * c + r) = f (xs ! k) ! r"
      using Cons.IH [of k] Cons.prems Suc by simp
    moreover have "Suc k * c + r = c + (k * c + r)" by simp
    ultimately show ?thesis using Suc len by (simp add: nth_append)
  qed
qed

lemma length_range_py: "length (range_py k) = nat k"
  by (simp add: range_py_def)

lemma nth_range_py: "i < nat k \<Longrightarrow> range_py k ! i = int i"
  by (simp add: range_py_def)

lemma face_step_append: "face_step n i j faces = faces @ cell_faces n i j"
  by (simp add: face_step_def cell_faces_def Let_def)

lemma build_faces_concat:
  "build_faces n =
     concat (map (\<lambda>i. concat (map (\<lambda>j. cell_faces n i j) (range_py (n - 1))))
                 (range_py (n - 1)))"
proof -
  have inner: "(\<lambda>i faces. fold (\<lambda>j faces'. face_step n i j faces') (range_py (n - 1)) faces)
      = (\<lambda>i faces. faces @ concat (map (\<lambda>j. cell_faces n i j) (range_py (n - 1))))"
    by (intro ext) (simp add: face_step_append fold_append_concat)
  show ?thesis
    unfolding build_faces_def inner
    by (simp add: fold_append_concat)
qed

lemma length_build_faces: "length (build_faces n) = 2 * (nat (n - 1) * nat (n - 1))"
proof -
  have row: "\<And>i. length (concat (map (\<lambda>j. cell_faces n i j) (range_py (n - 1))))
      = nat (n - 1) * 2"
    using concat_uniform_length [where f = "\<lambda>j. cell_faces n _ j" and c = 2]
    by (simp add: cell_faces_def length_range_py)
  have "length (build_faces n) = length (range_py (n - 1)) * (nat (n - 1) * 2)"
    unfolding build_faces_concat
    by (rule concat_uniform_length) (rule row)
  then show ?thesis by (simp add: length_range_py)
qed

lemma build_faces_nth:
  assumes i: "i < nat (n - 1)" and j: "j < nat (n - 1)" and r: "r < 2"
  shows "build_faces n ! (2 * (i * nat (n - 1) + j) + r) = cell_faces n (int i) (int j) ! r"
proof -
  let ?m = "nat (n - 1)"
  let ?row = "\<lambda>i. concat (map (\<lambda>j. cell_faces n i j) (range_py (n - 1)))"
  have rowlen: "\<And>i. length (?row i) = ?m * 2"
    using concat_uniform_length [where f = "\<lambda>j. cell_faces n _ j" and c = 2]
    by (simp add: cell_faces_def length_range_py)
  have jr: "j * 2 + r < ?m * 2" using j r by simp
  have "build_faces n ! (i * (?m * 2) + (j * 2 + r)) = ?row (range_py (n - 1) ! i) ! (j * 2 + r)"
    unfolding build_faces_concat
    by (rule concat_uniform_nth) (simp_all add: rowlen length_range_py i jr)
  also have "\<dots> = ?row (int i) ! (j * 2 + r)"
    using i by (simp add: nth_range_py)
  also have "\<dots> = cell_faces n (int i) (range_py (n - 1) ! j) ! r"
    by (rule concat_uniform_nth) (simp_all add: cell_faces_def length_range_py j r)
  also have "\<dots> = cell_faces n (int i) (int j) ! r"
    using j by (simp add: nth_range_py)
  finally show ?thesis by (simp add: algebra_simps)
qed

subsection \<open>Helper lemmas on arrays and samples\<close>

lemma np_sign_sgn: "np_sign v = sgn v"
  by (simp add: np_sign_def sgn_if)

lemma length_arr_map: "length (arr_map f A) = length A"
  by (simp add: arr_map_def)

lemma length_arr_map2: "length (arr_map2 f A B) = min (length A) (length B)"
  by (simp add: arr_map2_def)

lemma nth_arr_map_row: "i < length A \<Longrightarrow> arr_map f A ! i = map f (A ! i)"
  by (simp add: arr_map_def)

lemma nth_arr_map2_row:
  "i < length A \<Longrightarrow> i < length B \<Longrightarrow> arr_map2 f A B ! i = map2 f (A ! i) (B ! i)"
  by (simp add: arr_map2_def)

lemma rows_arr_map:
  "(\<And>row. row \<in> set A \<Longrightarrow> length row = c) \<Longrightarrow> row \<in> set (arr_map f A) \<Longrightarrow> length row = c"
  by (auto simp: arr_map_def)

lemma rows_arr_map2:
  "(\<And>row. row \<in> set A \<Longrightarrow> length row = c) \<Longrightarrow> (\<And>row. row \<in> set B \<Longrightarrow> length row = c)
   \<Longrightarrow> row \<in> set (arr_map2 f A B) \<Longrightarrow> length row = c"
proof -
  assume A: "\<And>row. row \<in> set A \<Longrightarrow> length row = c"
    and B: "\<And>row. row \<in> set B \<Longrightarrow> length row = c"
    and "row \<in> set (arr_map2 f A B)"
  then obtain p q where pq: "(p, q) \<in> set (zip A B)" and row: "row = map2 f p q"
    by (auto simp: arr_map2_def)
  from pq have "p \<in> set A" "q \<in> set B"
    by (auto dest: set_zip_leftD set_zip_rightD)
  with A B row show "length row = c" by simp
qed

lemma length_flatten:
  "(\<And>row. row \<in> set A \<Longrightarrow> length row = c) \<Longrightarrow> length (flatten A) = length A * c"
  using concat_uniform_length [where f = "\<lambda>row. row" and xs = A and c = c]
  by (simp add: flatten_def)

lemma nth_flatten:
  "(\<And>row. row \<in> set A \<Longrightarrow> length row = c) \<Longrightarrow> i < length A \<Longrightarrow> j < c
   \<Longrightarrow> flatten A ! (i * c + j) = A ! i ! j"
  using concat_uniform_nth [where f = "\<lambda>row. row" and xs = A and c = c and i = i and r = j]
  by (simp add: flatten_def)

lemma linspace_samples:
  assumes "2 \<le> n"
  shows "linspace a b n = Inr (map (uniform_sample a b n) [0..<nat n])"
proof -
  let ?y = "map (\<lambda>k. real_of_int k * ((b - a) / real_of_int (n - 1)) + a) (range_py n)"
  have lin: "linspace a b n = Inr (?y[nat (n - 1) := b])"
    using assms by (simp add: linspace_def Let_def)
  have "?y[nat (n - 1) := b] = map (uniform_sample a b n) [0..<nat n]"
  proof (rule nth_equalityI)
    show "length (?y[nat (n - 1) := b]) = length (map (uniform_sample a b n) [0..<nat n])"
      by (simp add: length_range_py)
  next
    fix i assume "i < length (?y[nat (n - 1) := b])"
    then have i: "i < nat n" by (simp add: length_range_py)
    show "?y[nat (n - 1) := b] ! i = map (uniform_sample a b n) [0..<nat n] ! i"
    proof (cases "i = nat (n - 1)")
      case True
      have "real_of_int (n - 1) \<noteq> 0" using assms by simp
      moreover have "real i = real_of_int (n - 1)" using True assms by simp
      ultimately have "uniform_sample a b n i = b"
        by (simp add: uniform_sample_def)
      with True i show ?thesis by (simp add: length_range_py)
    next
      case False
      with i show ?thesis
        by (simp add: length_range_py nth_range_py uniform_sample_def algebra_simps)
    qed
  qed
  with lin show ?thesis by simp
qed

lemma linspace_length:
  "0 \<le> n \<Longrightarrow> \<exists>ys. linspace a b n = Inr ys \<and> length ys = nat n"
  by (simp add: linspace_def Let_def length_range_py)

lemma linspace_negative: "n < 0 \<Longrightarrow> linspace a b n = Inl ValueError"
  by (simp add: linspace_def)

lemma signed_power_product:
  "fl_mul (fl_mul (fl_mul (Some (a * np_sign c)) (np_power \<bar>c\<bar> e1)) (Some (np_sign d)))
      (np_power \<bar>d\<bar> e2)
   = fl_mul (fl_mul (Some a) (spow c e1)) (spow d e2)"
  by (simp add: fl_mul_def spow_def np_sign_sgn split: option.splits)

lemma signed_power_single:
  "fl_mul (Some (a * np_sign c)) (np_power \<bar>c\<bar> e1) = fl_mul (Some a) (spow c e1)"
  by (simp add: fl_mul_def spow_def np_sign_sgn split: option.splits)

lemma nth_arr_map:
  "i < length A \<Longrightarrow> j < length (A ! i) \<Longrightarrow> arr_map f A ! i ! j = f (A ! i ! j)"
  by (simp add: arr_map_def)

lemma nth_arr_map2:
  "i < length A \<Longrightarrow> i < length B \<Longrightarrow> j < length (A ! i) \<Longrightarrow> j < length (B ! i)
   \<Longrightarrow> arr_map2 f A B ! i ! j = f (A ! i ! j) (B ! i ! j)"
  by (simp add: arr_map2_def)

lemma length_arr_map_row: "i < length A \<Longrightarrow> length (arr_map f A ! i) = length (A ! i)"
  by (simp add: arr_map_def)

lemma length_arr_map2_row:
  "i < length A \<Longrightarrow> i < length B
   \<Longrightarrow> length (arr_map2 f A B ! i) = min (length (A ! i)) (length (B ! i))"
  by (simp add: arr_map2_def)

lemmas arr_simps = length_arr_map length_arr_map2 nth_arr_map nth_arr_map2
  length_arr_map_row length_arr_map2_row

lemma xy_array_nth:
  assumes "length P = m" "length T = m" "length (P ! i) = m" "length (T ! i) = m"
    and "i < m" "j < m"
  shows "arr_map2 fl_mul
                (arr_map2 fl_mul
                  (arr_map2 fl_mul
                    (arr_map Some (arr_map (\<lambda>s. a * s) (arr_map np_sign (arr_map cos P))))
                    (arr_map (\<lambda>b. np_power b e1) (arr_map abs (arr_map cos P))))
                  (arr_map Some (arr_map np_sign (arr_map g T))))
                (arr_map (\<lambda>b. np_power b e2) (arr_map abs (arr_map g T))) ! i ! j
         = fl_mul (fl_mul (Some a) (spow (cos (P ! i ! j)) e1)) (spow (g (T ! i ! j)) e2)"
  using assms by (simp add: arr_simps signed_power_product)

lemma z_array_nth:
  assumes "length P = m" "length (P ! i) = m" and "i < m" "j < m"
  shows "arr_map2 fl_mul
                (arr_map Some (arr_map (\<lambda>s. a * s) (arr_map np_sign (arr_map sin P))))
                (arr_map (\<lambda>b. np_power b e1) (arr_map abs (arr_map sin P))) ! i ! j
         = fl_mul (Some a) (spow (sin (P ! i ! j)) e1)"
  using assms by (simp add: arr_simps signed_power_single)

lemma all_rows_arr_map:
  "(\<forall>row\<in>set (arr_map f A). length row = c) = (\<forall>row\<in>set A. length row = c)"
  by (auto simp: arr_map_def)

lemma all_rows_arr_map2:
  "\<forall>row\<in>set A. length row = c \<Longrightarrow> \<forall>row\<in>set B. length row = c
   \<Longrightarrow> \<forall>row\<in>set (arr_map2 f A B). length row = c"
  using rows_arr_map2 [of A c B] by blast

lemma xy_array_rows:
  assumes "\<forall>row\<in>set P. length row = m" "\<forall>row\<in>set T. length row = m"
  shows "\<forall>row\<in>set (arr_map2 fl_mul
                (arr_map2 fl_mul
                  (arr_map2 fl_mul
                    (arr_map Some (arr_map (\<lambda>s. a * s) (arr_map np_sign (arr_map cos P))))
                    (arr_map (\<lambda>b. np_power b e1) (arr_map abs (arr_map cos P))))
                  (arr_map Some (arr_map np_sign (arr_map g T))))
                (arr_map (\<lambda>b. np_power b e2) (arr_map abs (arr_map g T)))). length row = m"
  by (intro all_rows_arr_map2) (simp_all add: all_rows_arr_map assms)

lemma z_array_rows:
  assumes "\<forall>row\<in>set P. length row = m"
  shows "\<forall>row\<in>set (arr_map2 fl_mul
                (arr_map Some (arr_map (\<lambda>s. a * s) (arr_map np_sign (arr_map sin P))))
                (arr_map (\<lambda>b. np_power b e1) (arr_map abs (arr_map sin P)))). length row = m"
  by (intro all_rows_arr_map2) (simp_all add: all_rows_arr_map assms)

lemma meshgrid_fst: "fst (meshgrid xs ys) = replicate (length ys) xs"
  by (simp add: meshgrid_def)

lemma meshgrid_snd: "snd (meshgrid xs ys) = map (\<lambda>y. replicate (length xs) y) ys"
  by (simp add: meshgrid_def)

lemma mesh_vertices:
  assumes ps: "linspace (- pi / 2) (pi / 2) n = Inr ps" and ts: "linspace (- pi) pi n = Inr ts"
    and lp: "length ps = m" and lt: "length ts = m"
  shows "\<exists>vs. generate_superquadric_mesh a1 a2 a3 e1 e2 n = Inr (vs, build_faces n)
           \<and> length vs = m * m
           \<and> (\<forall>i<m. \<forall>j<m. vs ! (i * m + j)
                 = superquadric_point a1 a2 a3 e1 e2 (ps ! j) (ts ! i))"
proof -
  define P where "P = replicate m ps"
  define T where "T = map (\<lambda>y. replicate m y) ts"
  define X where "X = arr_map2 fl_mul
                (arr_map2 fl_mul
                  (arr_map2 fl_mul
                    (arr_map Some (arr_map (\<lambda>s. a1 * s) (arr_map np_sign (arr_map cos P))))
                    (arr_map (\<lambda>b. np_power b e1) (arr_map abs (arr_map cos P))))
                  (arr_map Some (arr_map np_sign (arr_map cos T))))
                (arr_map (\<lambda>b. np_power b e2) (arr_map abs (arr_map cos T)))"
  define Y where "Y = arr_map2 fl_mul
                (arr_map2 fl_mul
                  (arr_map2 fl_mul
                    (arr_map Some (arr_map (\<lambda>s. a2 * s) (arr_map np_sign (arr_map cos P))))
                    (arr_map (\<lambda>b. np_power b e1) (arr_map abs (arr_map cos P))))
                  (arr_map Some (arr_map np_sign (arr_map sin T))))
                (arr_map (\<lambda>b. np_power b e2) (arr_map abs (arr_map sin T)))"
  define Z where "Z = arr_map2 fl_mul
                (arr_map Some (arr_map (\<lambda>s. a3 * s) (arr_map np_sign (arr_map sin P))))
                (arr_map (\<lambda>b. np_power b e1) (arr_map abs (arr_map sin P)))"
  define vs where "vs = zip (flatten X) (zip (flatten Y) (flatten Z))"
  have gen: "generate_superquadric_mesh a1 a2 a3 e1 e2 n = Inr (vs, build_faces n)"
    unfolding generate_superquadric_mesh_def vs_def X_def Y_def Z_def P_def T_def
    using ps ts by (simp add: meshgrid_def lp lt Let_def)
  have lenP: "length P = m" and lenT: "length T = m"
    by (simp_all add: P_def T_def lt)
  have rowsP: "\<forall>row\<in>set P. length row = m" and rowsT: "\<forall>row\<in>set T. length row = m"
    by (auto simp: P_def T_def lp)
  have lenX: "length X = m" and lenY: "length Y = m" and lenZ: "length Z = m"
    by (simp_all add: X_def Y_def Z_def arr_simps lenP lenT)
  have rowsX: "\<forall>row\<in>set X. length row = m"
    unfolding X_def by (rule xy_array_rows [OF rowsP rowsT])
  have rowsY: "\<forall>row\<in>set Y. length row = m"
    unfolding Y_def by (rule xy_array_rows [OF rowsP rowsT])
  have rowsZ: "\<forall>row\<in>set Z. length row = m"
    unfolding Z_def by (rule z_array_rows [OF rowsP])
  have lfX: "length (flatten X) = m * m" using length_flatten [of X m] rowsX lenX by simp
  have lfY: "length (flatten Y) = m * m" using length_flatten [of Y m] rowsY lenY by simp
  have lfZ: "length (flatten Z) = m * m" using length_flatten [of Z m] rowsZ lenZ by simp
  have lenvs: "length vs = m * m" by (simp add: vs_def lfX lfY lfZ)
  have pts: "vs ! (i * m + j) = superquadric_point a1 a2 a3 e1 e2 (ps ! j) (ts ! i)"
    if i: "i < m" and j: "j < m" for i j
  proof -
    have k: "i * m + j < m * m"
    proof -
      have "i * m + j < i * m + m" using j by simp
      also have "\<dots> = Suc i * m" by simp
      also have "\<dots> \<le> m * m" using i by (metis Suc_leI mult_le_mono1)
      finally show ?thesis .
    qed
    have Pij: "P ! i ! j = ps ! j" and Tij: "T ! i ! j = ts ! i"
      using i j by (simp_all add: P_def T_def lt)
    have Pi: "length (P ! i) = m" and Ti: "length (T ! i) = m"
      using i by (simp_all add: P_def T_def lt lp)
    have x: "flatten X ! (i * m + j) = X ! i ! j"
      using nth_flatten [of X m i j] rowsX lenX i j by simp
    have y: "flatten Y ! (i * m + j) = Y ! i ! j"
      using nth_flatten [of Y m i j] rowsY lenY i j by simp
    have z: "flatten Z ! (i * m + j) = Z ! i ! j"
      using nth_flatten [of Z m i j] rowsZ lenZ i j by simp
    have "vs ! (i * m + j) = (X ! i ! j, Y ! i ! j, Z ! i ! j)"
      using k by (simp add: vs_def lfX lfY lfZ x y z)
    also have "X ! i ! j = fl_mul (fl_mul (Some a1) (spow (cos (ps ! j)) e1)) (spow (cos (ts ! i)) e2)"
      unfolding X_def using xy_array_nth [OF lenP lenT Pi Ti i j] by (simp add: Pij Tij)
    also have "Y ! i ! j = fl_mul (fl_mul (Some a2) (spow (cos (ps ! j)) e1)) (spow (sin (ts ! i)) e2)"
      unfolding Y_def using xy_array_nth [OF lenP lenT Pi Ti i j] by (simp add: Pij Tij)
    also have "Z ! i ! j = fl_mul (Some a3) (spow (sin (ps ! j)) e1)"
      unfolding Z_def using z_array_nth [OF lenP Pi i j] by (simp add: Pij)
    finally show ?thesis by (simp add: superquadric_point_def)
  qed
  from gen lenvs pts show ?thesis by blast
qed

subsection \<open>The grid of vertices and the cells of faces\<close>

lemma mesh_grid:
  assumes n: "2 \<le> n"
  shows "\<exists>vs. generate_superquadric_mesh a1 a2 a3 e1 e2 n = Inr (vs, build_faces n)
           \<and> length vs = nat n * nat n
           \<and> (\<forall>i<nat n. \<forall>j<nat n. vs ! (i * nat n + j)
                 = superquadric_point a1 a2 a3 e1 e2
                     (uniform_sample (- pi / 2) (pi / 2) n j) (uniform_sample (- pi) pi n i))"
proof -
  let ?ps = "map (uniform_sample (- pi / 2) (pi / 2) n) [0..<nat n]"
  let ?ts = "map (uniform_sample (- pi) pi n) [0..<nat n]"
  have "\<exists>vs. generate_superquadric_mesh a1 a2 a3 e1 e2 n = Inr (vs, build_faces n)
           \<and> length vs = nat n * nat n
           \<and> (\<forall>i<nat n. \<forall>j<nat n. vs ! (i * nat n + j)
                 = superquadric_point a1 a2 a3 e1 e2 (?ps ! j) (?ts ! i))"
    by (rule mesh_vertices [OF linspace_samples [OF n] linspace_samples [OF n]]) simp_all
  then show ?thesis by simp
qed

lemma mesh_grid_flat:
  assumes n: "2 \<le> n"
  shows "\<exists>vs. generate_superquadric_mesh a1 a2 a3 e1 e2 n = Inr (vs, build_faces n)
           \<and> length vs = nat n * nat n
           \<and> (\<forall>k<nat n * nat n. vs ! k
                 = superquadric_point a1 a2 a3 e1 e2
                     (uniform_sample (- pi / 2) (pi / 2) n (k mod nat n))
                     (uniform_sample (- pi) pi n (k div nat n)))"
proof -
  from mesh_grid [OF n, of a1 a2 a3 e1 e2] obtain vs where
    gen: "generate_superquadric_mesh a1 a2 a3 e1 e2 n = Inr (vs, build_faces n)"
    and len: "length vs = nat n * nat n"
    and pts: "\<And>i j. i < nat n \<Longrightarrow> j < nat n \<Longrightarrow> vs ! (i * nat n + j)
                 = superquadric_point a1 a2 a3 e1 e2
                     (uniform_sample (- pi / 2) (pi / 2) n j) (uniform_sample (- pi) pi n i)"
    by blast
  have "vs ! k = superquadric_point a1 a2 a3 e1 e2
                     (uniform_sample (- pi / 2) (pi / 2) n (k mod nat n))
                     (uniform_sample (- pi) pi n (k div nat n))"
    if k: "k < nat n * nat n" for k
  proof -
    have pos: "0 < nat n" using n by simp
    have d: "k div nat n < nat n" using k pos by (simp add: less_mult_imp_div_less)
    have m: "k mod nat n < nat n" using pos by simp
    have "vs ! (k div nat n * nat n + k mod nat n) = superquadric_point a1 a2 a3 e1 e2
                     (uniform_sample (- pi / 2) (pi / 2) n (k mod nat n))
                     (uniform_sample (- pi) pi n (k div nat n))"
      by (rule pts [OF d m])
    then show ?thesis by simp
  qed
  with gen len show ?thesis by blast
qed

lemma spow_one: "spow v 1 = Some v"
  by (simp add: spow_def np_power_def fl_mul_def sgn_if)

lemma unit_point:
  "superquadric_point 1 1 1 1 1 phi theta
     = (Some (cos phi * cos theta), Some (cos phi * sin theta), Some (sin phi))"
  by (simp add: superquadric_point_def spow_one fl_mul_def)

lemma abs_cos_mult_le: "\<bar>cos (p::real) * cos t\<bar> \<le> 1" "\<bar>cos (p::real) * sin t\<bar> \<le> 1"
proof -
  have "\<bar>cos p * cos t\<bar> = \<bar>cos p\<bar> * \<bar>cos t\<bar>" by (simp add: abs_mult)
  also have "\<dots> \<le> 1 * 1" by (intro mult_mono) simp_all
  finally show "\<bar>cos p * cos t\<bar> \<le> 1" by simp
  have "\<bar>cos p * sin t\<bar> = \<bar>cos p\<bar> * \<bar>sin t\<bar>" by (simp add: abs_mult)
  also have "\<dots> \<le> 1 * 1" by (intro mult_mono) simp_all
  finally show "\<bar>cos p * sin t\<bar> \<le> 1" by simp
qed

lemma unit_point_within:
  "case superquadric_point 1 1 1 1 1 phi theta of
     (x, y, z) \<Rightarrow> finite_within (- 1) 1 x \<and> finite_within (- 1) 1 y \<and> finite_within (- 1) 1 z"
  using abs_cos_mult_le [of phi theta]
  by (simp add: unit_point finite_within_def abs_le_iff)

lemma unit_point_norm: "norm_sq (superquadric_point 1 1 1 1 1 phi theta) = Some 1"
proof -
  have t: "cos theta * cos theta + sin theta * sin theta = 1"
    using sin_cos_squared_add2 [of theta] by (simp add: power2_eq_square)
  have p: "cos phi * cos phi + sin phi * sin phi = 1"
    using sin_cos_squared_add2 [of phi] by (simp add: power2_eq_square)
  have g: "c * ct * (c * ct) + c * st * (c * st) + s * s = c * c * (ct * ct + st * st) + s * s"
    for c ct st s :: real
    by (simp add: algebra_simps)
  have "cos phi * cos theta * (cos phi * cos theta) + cos phi * sin theta * (cos phi * sin theta)
        + sin phi * sin phi = 1"
    by (simp only: g t p mult_1_right)
  then show ?thesis by (simp only: unit_point norm_sq_def prod.case option.case)
qed

lemma grid_index_bij:
  assumes m: "0 < (m::nat)"
  shows "bij_betw (\<lambda>k. (k mod m, k div m)) {..<m * m} ({..<m} \<times> {..<m})"
proof (rule bij_betw_byWitness [where f' = "\<lambda>q. snd q * m + fst q"])
  show "\<forall>k\<in>{..<m * m}. snd (k mod m, k div m) * m + fst (k mod m, k div m) = k"
    by simp
  show "\<forall>q\<in>{..<m} \<times> {..<m}. ((snd q * m + fst q) mod m, (snd q * m + fst q) div m) = q"
    by auto
  show "(\<lambda>k. (k mod m, k div m)) ` {..<m * m} \<subseteq> {..<m} \<times> {..<m}"
    using m by (auto simp: less_mult_imp_div_less)
  show "(\<lambda>q. snd q * m + fst q) ` ({..<m} \<times> {..<m}) \<subseteq> {..<m * m}"
  proof
    fix k assume "k \<in> (\<lambda>q. snd q * m + fst q) ` ({..<m} \<times> {..<m})"
    then obtain p t where k: "k = t * m + p" and p: "p < m" and t: "t < m" by auto
    have "t * m + p < t * m + m" using p by simp
    also have "\<dots> = Suc t * m" by simp
    also have "\<dots> \<le> m * m" using t by (metis Suc_leI mult_le_mono1)
    finally show "k \<in> {..<m * m}" using k by simp
  qed
qed

lemma np_power_finite: "0 \<le> b \<Longrightarrow> 0 \<le> e \<Longrightarrow> is_finite (np_power b e)"
  by (simp add: np_power_def is_finite_def)

lemma spow_finite: "0 \<le> e \<Longrightarrow> is_finite (spow v e)"
  using np_power_finite [of "\<bar>v\<bar>" e]
  by (simp add: spow_def fl_mul_def is_finite_def split: option.splits)

lemma fl_mul_finite: "is_finite u \<Longrightarrow> is_finite v \<Longrightarrow> is_finite (fl_mul u v)"
  by (simp add: fl_mul_def is_finite_def split: option.splits)

lemma point_finite:
  assumes "0 \<le> e1" "0 \<le> e2"
  shows "case superquadric_point a1 a2 a3 e1 e2 phi theta of
           (x, y, z) \<Rightarrow> is_finite x \<and> is_finite y \<and> is_finite z"
proof -
  have s: "is_finite (Some a)" for a :: real by (simp add: is_finite_def)
  show ?thesis
    using assms by (simp add: superquadric_point_def fl_mul_finite spow_finite s)
qed

lemma point_scaling:
  "superquadric_point a1 a2 a3 e1 e2 phi theta
     = scale_vertex a1 a2 a3 (superquadric_point 1 1 1 e1 e2 phi theta)"
  by (simp add: superquadric_point_def scale_vertex_def fl_mul_def split: option.splits)

lemma range_py_2: "range_py 2 = [0, 1]" "range_py 1 = [0]"
  by (simp_all add: range_py_def upt_rec)

lemma build_faces_2: "build_faces 2 = [[0, 1, 2], [1, 3, 2]]"
  by (simp add: build_faces_def range_py_2 face_step_def)

lemma linspace_2: "linspace a b 2 = Inr [a, b]"
  by (simp add: linspace_def range_py_2)

lemma mesh_2:
  "generate_superquadric_mesh 1 1 1 1 1 2
     = Inr ([(Some 0, Some 0, Some (- 1)), (Some 0, Some 0, Some 1),
             (Some 0, Some 0, Some (- 1)), (Some 0, Some 0, Some 1)],
            [[0, 1, 2], [1, 3, 2]])"
  by (simp add: generate_superquadric_mesh_def linspace_2 meshgrid_def arr_map_def arr_map2_def
      flatten_def np_sign_def np_power_def fl_mul_def build_faces_2)

lemma cell_div_mod:
  fixes i j n :: int
  assumes "0 \<le> j" "j < n"
  shows "(i * n + j) mod n = j" "(i * n + j) div n = i"
  using assms by simp_all

lemma face_in_cell:
  assumes "f \<in> set (build_faces n)"
  shows "\<exists>i j. 0 \<le> i \<and> i \<le> n - 2 \<and> 0 \<le> j \<and> j \<le> n - 2 \<and> f \<in> set (cell_faces n i j)"
proof -
  from assms obtain i j where "i \<in> set (range_py (n - 1))" "j \<in> set (range_py (n - 1))"
    and f: "f \<in> set (cell_faces n i j)"
    unfolding build_faces_concat by auto
  then have "0 \<le> i \<and> i \<le> n - 2 \<and> 0 \<le> j \<and> j \<le> n - 2"
    by (auto simp: range_py_def)
  with f show ?thesis by blast
qed

lemma cell_members:
  assumes j: "0 \<le> j" "j \<le> n - 2" and f: "f \<in> set (cell_faces n i j)" and a: "a \<in> set f"
  shows "(a mod n = j \<or> a mod n = j + 1) \<and> (a div n = i \<or> a div n = i + 1)"
proof -
  have 1: "i * n + j + 1 = i * n + (j + 1)" by simp
  have 2: "i * n + j + n = (i + 1) * n + j" by (simp add: algebra_simps)
  have 3: "i * n + j + n + 1 = (i + 1) * n + (j + 1)" by (simp add: algebra_simps)
  have j0: "j < n" and j1: "0 \<le> j + 1" "j + 1 < n" using j by simp_all
  from f a have "a = i * n + j \<or> a = i * n + (j + 1) \<or> a = (i + 1) * n + j
      \<or> a = (i + 1) * n + (j + 1)"
    unfolding cell_faces_def 1 2 3 by auto
  then show ?thesis
    using cell_div_mod [OF j(1) j0] cell_div_mod [OF j1] by auto
qed

lemma cell_bounds:
  assumes i: "0 \<le> i" "i \<le> n - 2" and j: "0 \<le> j" "j \<le> n - 2"
    and f: "f \<in> set (cell_faces n i j)" and a: "a \<in> set f"
  shows "0 \<le> a \<and> a < n\<^sup>2"
proof -
  have n: "2 \<le> n" using i by simp
  have lo: "0 \<le> i * n" using i n by simp
  have "i * n \<le> (n - 2) * n" using i n by (intro mult_right_mono) simp_all
  then have hi: "i * n + j + n + 1 < n\<^sup>2"
    using j by (simp add: power2_eq_square algebra_simps)
  from f a have "a = i * n + j \<or> a = i * n + j + 1 \<or> a = i * n + j + n
      \<or> a = i * n + j + n + 1"
    unfolding cell_faces_def by auto
  with lo hi j n show ?thesis by auto
qed

subsection \<open>Saved entries and what the loader reads\<close>

lemma fold_save_step:
  "fold save_step xs acc = acc @ map sq_data (filter nonzero_axes xs)"
  by (induction xs arbitrary: acc) (simp_all add: save_step_def nonzero_axes_def)

lemma saved_superquadrics_filter:
  "saved_superquadrics self = map sq_data (filter nonzero_axes (win_sqs self))"
  by (simp add: saved_superquadrics_def fold_save_step)

lemma save_object_new_file:
  "fs OUTPUT_JSON = None \<Longrightarrow> save_object self fs
     = Inr (fs(OUTPUT_JSON \<mapsto> JArr ([] @ [JObj [(''description'', JStr (textbox_text_value self)),
              (''superquadrics'', JArr (saved_superquadrics self))]])))"
  by (simp add: save_object_def Let_def)

lemma save_object_append:
  "fs OUTPUT_JSON = Some (JArr entries) \<Longrightarrow> save_object self fs
     = Inr (fs(OUTPUT_JSON \<mapsto> JArr (entries @ [JObj [(''description'', JStr (textbox_text_value self)),
              (''superquadrics'', JArr (saved_superquadrics self))]])))"
  by (simp add: save_object_def Let_def)

lemma getitem_sq_data:
  "py_getitem_str (sq_data sq) ''scale''
     = Inr (JArr [JNum (sq_a1 sq), JNum (sq_a2 sq), JNum (sq_a3 sq)])"
  "py_getitem_str (sq_data sq) ''position''
     = Inr (JArr [JNum (sq_x sq), JNum (sq_y sq), JNum (sq_z sq)])"
  "py_getitem_str (sq_data sq) ''epsilon1'' = Inr (JNum (py_round2 (sq_e1 sq)))"
  "py_getitem_str (sq_data sq) ''epsilon2'' = Inr (JNum (py_round2 (sq_e2 sq)))"
  "py_getitem_str (sq_data sq) ''rotation''
     = Inr (JArr [JArr [JNum (sq_r11 sq), JNum (sq_r12 sq), JNum (sq_r13 sq)],
                  JArr [JNum (sq_r21 sq), JNum (sq_r22 sq), JNum (sq_r23 sq)],
                  JArr [JNum (sq_r31 sq), JNum (sq_r32 sq), JNum (sq_r33 sq)]])"
  by (simp_all add: py_getitem_str_def sq_data_def)

lemma bind_res_Inr: "bind_res (Inr v) f = f v"
  by (simp add: bind_res_def)

lemma bind_res_Inl: "bind_res (Inl e) f = Inl e"
  by (simp add: bind_res_def)

lemma num_at_3:
  "num_at (JArr [JNum a, JNum b, JNum c]) 0 = Inr a"
  "num_at (JArr [JNum a, JNum b, JNum c]) (Suc 0) = Inr b"
  "num_at (JArr [JNum a, JNum b, JNum c]) 2 = Inr c"
  by (simp_all add: num_at_def py_getitem_int_def to_double_def bind_res_def)

lemma num_at2_3:
  "num_at2 (JArr [r0, r1, r2]) 0 j = num_at r0 j"
  "num_at2 (JArr [r0, r1, r2]) (Suc 0) j = num_at r1 j"
  "num_at2 (JArr [r0, r1, r2]) 2 j = num_at r2 j"
  by (simp_all add: num_at2_def py_getitem_int_def bind_res_def)

lemma set_values_saved:
  "set_values fresh (JArr [JNum (sq_a1 sq), JNum (sq_a2 sq), JNum (sq_a3 sq)])
     (JArr [JNum (sq_x sq), JNum (sq_y sq), JNum (sq_z sq)])
     (JNum (py_round2 (sq_e1 sq))) (JNum (py_round2 (sq_e2 sq)))
     (JArr [JArr [JNum (sq_r11 sq), JNum (sq_r12 sq), JNum (sq_r13 sq)],
            JArr [JNum (sq_r21 sq), JNum (sq_r22 sq), JNum (sq_r23 sq)],
            JArr [JNum (sq_r31 sq), JNum (sq_r32 sq), JNum (sq_r33 sq)]])
   = Inr (rounded sq)"
  by (cases sq, cases fresh)
     (simp add: set_values_def num_at_3 num_at2_3 bind_res_Inr to_double_def rounded_def)

lemma load_loop_saved:
  "load_loop fresh (map sq_data xs) acc = Inr (acc @ map rounded xs)"
  by (induction xs arbitrary: acc)
     (simp_all add: getitem_sq_data bind_res_Inr set_values_saved)

lemma load_components_saved:
  "load_superquadrics fresh path (fs(path \<mapsto> JObj [(''components'', JArr (map sq_data xs))]))
     = Inr (map rounded xs)"
  by (simp add: load_superquadrics_def py_getitem_str_def py_iter_def bind_res_Inr
      load_loop_saved)

lemma load_array_fails:
  "fs path = Some (JArr entries) \<Longrightarrow> load_superquadrics fresh path fs = Inl TypeError"
  by (simp add: load_superquadrics_def py_getitem_str_def bind_res_Inl)

subsection \<open>Rounded products at the first grid point\<close>

lemma round_double_normal:
  assumes x: "x \<noteq> 0"
    and lo: "2 powr of_int e \<le> \<bar>x\<bar>" and hi: "\<bar>x\<bar> < 2 powr of_int (e + 1)"
    and e: "- 1022 \<le> e"
    and m: "round_half_even (x / 2 powr of_int (e - 52)) = m"
    and fin: "\<bar>real_of_int m * 2 powr of_int (e - 52)\<bar> < 2 powr 1024"
  shows "round_double x = Some (of_int m * 2 powr of_int (e - 52))"
proof -
  have "\<lfloor>log 2 \<bar>x\<bar>\<rfloor> = e"
    using x lo hi by (subst floor_log_eq_powr_iff) simp_all
  moreover have "max (e - 52) (- 1074) = e - 52" using e by simp
  ultimately show ?thesis
    using x m fin by (simp add: round_double_def Let_def del: powr_numeral)
qed

lemma double_mul_normal:
  assumes "a * b \<noteq> 0"
    and "2 powr of_int e \<le> \<bar>a * b\<bar>" and "\<bar>a * b\<bar> < 2 powr of_int (e + 1)"
    and "- 1022 \<le> e"
    and "round_half_even (a * b / 2 powr of_int (e - 52)) = m"
    and "\<bar>real_of_int m * 2 powr of_int (e - 52)\<bar> < 2 powr 1024"
  shows "double_mul (Some a) (Some b) = Some (of_int m * 2 powr of_int (e - 52))"
  unfolding double_mul_def using round_double_normal [OF assms] by simp

lemma scaled_steps:
  "double_mul (Some 5) (Some 1) = Some 5"
  "double_mul (Some 5) (Some (4967757600021511 / 2 ^ 106)) = Some (6209697000026889 / 2 ^ 104)"
  "double_mul (Some (6209697000026889 / 2 ^ 104)) (Some (- 1))
     = Some (- (6209697000026889 / 2 ^ 104))"
  "double_mul (Some (- (6209697000026889 / 2 ^ 104))) (Some (4967757600021511 / 2 ^ 105))
     = Some (- (6849691806135451 / 2 ^ 157))"
  using double_mul_normal [of 5 1 2 "5 * 2 ^ 50"]
    double_mul_normal [of 5 "4967757600021511 / 2 ^ 106" "- 52" 6209697000026889]
    double_mul_normal [of "6209697000026889 / 2 ^ 104" "- 1" "- 52" "- 6209697000026889"]
    double_mul_normal [of "- (6209697000026889 / 2 ^ 104)" "4967757600021511 / 2 ^ 105"
      "- 105" "- 6849691806135451"]
  by (simp_all add: round_half_even_def powr_neg_numeral)

lemma unit_steps:
  "double_mul (Some 1) (Some 1) = Some 1"
  "double_mul (Some 1) (Some (4967757600021511 / 2 ^ 106)) = Some (4967757600021511 / 2 ^ 106)"
  "double_mul (Some (4967757600021511 / 2 ^ 106)) (Some (- 1))
     = Some (- (4967757600021511 / 2 ^ 106))"
  "double_mul (Some (- (4967757600021511 / 2 ^ 106))) (Some (4967757600021511 / 2 ^ 105))
     = Some (- (5479753444908360 / 2 ^ 159))"
  "double_mul (Some 5) (Some (- (5479753444908360 / 2 ^ 159)))
     = Some (- (6849691806135450 / 2 ^ 157))"
  using double_mul_normal [of 1 1 0 "2 ^ 52"]
    double_mul_normal [of 1 "4967757600021511 / 2 ^ 106" "- 54" 4967757600021511]
    double_mul_normal [of "4967757600021511 / 2 ^ 106" "- 1" "- 54" "- 4967757600021511"]
    double_mul_normal [of "- (4967757600021511 / 2 ^ 106)" "4967757600021511 / 2 ^ 105"
      "- 107" "- 5479753444908360"]
    double_mul_normal [of 5 "- (5479753444908360 / 2 ^ 159)" "- 105" "- 6849691806135450"]
  by (simp_all add: round_half_even_def powr_neg_numeral)

lemma sample_signs:
  "np_sign cos_phi0_double = 1" "np_sign sin_theta0_double = - 1"
  "\<bar>cos_phi0_double\<bar> = 4967757600021511 / 2 ^ 106"
  "\<bar>sin_theta0_double\<bar> = 4967757600021511 / 2 ^ 105"
  by (simp_all add: np_sign_def cos_phi0_double_def sin_theta0_double_def)

section \<open>Properties of the mesh generator\<close>

text \<open>
  C1. For a resolution \<open>n \<ge> 2\<close> the call returns, and every vertex is the closed-form
  superquadric point \<open>(a1 * spow(cos phi, e1) * spow(cos theta, e2),
  a2 * spow(cos phi, e1) * spow(sin theta, e2), a3 * spow(sin phi, e1))\<close> of one pair
  of the grid, \<open>phi\<close> being one of the \<open>n\<close> uniform samples of \<open>[-pi/2, pi/2]\<close> and
  \<open>theta\<close> one of the \<open>n\<close> uniform samples of \<open>[-pi, pi]\<close>. The map \<open>g\<close> from positions
  of the vertex sequence to pairs (index of \<open>phi\<close>, index of \<open>theta\<close>) is a bijection:
  each pair of the grid contributes exactly one vertex.
\<close>

theorem vertices_closed_form:
  assumes n: "2 \<le> n"
  shows "\<exists>vs fs g. generate_superquadric_mesh a1 a2 a3 e1 e2 n = Inr (vs, fs)
           \<and> bij_betw g {..<length vs} ({..<nat n} \<times> {..<nat n})
           \<and> (\<forall>k<length vs. vs ! k
                 = superquadric_point a1 a2 a3 e1 e2
                     (uniform_sample (- pi / 2) (pi / 2) n (fst (g k)))
                     (uniform_sample (- pi) pi n (snd (g k))))"
proof -
  from mesh_grid_flat [OF n, of a1 a2 a3 e1 e2] obtain vs where
    gen: "generate_superquadric_mesh a1 a2 a3 e1 e2 n = Inr (vs, build_faces n)"
    and len: "length vs = nat n * nat n"
    and pts: "\<forall>k<nat n * nat n. vs ! k
                 = superquadric_point a1 a2 a3 e1 e2
                     (uniform_sample (- pi / 2) (pi / 2) n (k mod nat n))
                     (uniform_sample (- pi) pi n (k div nat n))"
    by blast
  let ?g = "\<lambda>k. (k mod nat n, k div nat n)"
  have "bij_betw ?g {..<length vs} ({..<nat n} \<times> {..<nat n})"
    unfolding len using n by (intro grid_index_bij) simp
  moreover have "\<forall>k<length vs. vs ! k
                 = superquadric_point a1 a2 a3 e1 e2
                     (uniform_sample (- pi / 2) (pi / 2) n (fst (?g k)))
                     (uniform_sample (- pi) pi n (snd (?g k)))"
    using pts len by simp
  ultimately show ?thesis using gen by blast
qed

theorem vertices_closed_form_witness:
  "(2::int) \<le> 2
   \<and> (\<exists>vs fs g. generate_superquadric_mesh 1 2 3 1 1 2 = Inr (vs, fs)
           \<and> bij_betw g {..<length vs} ({..<nat 2} \<times> {..<nat 2})
           \<and> (\<forall>k<length vs. vs ! k
                 = superquadric_point 1 2 3 1 1
                     (uniform_sample (- pi / 2) (pi / 2) 2 (fst (g k)))
                     (uniform_sample (- pi) pi 2 (snd (g k)))))"
proof -
  have h: "(2::int) \<le> 2" by simp
  show ?thesis using h vertices_closed_form [OF h, of 1 2 3 1 1] by blast
qed

text \<open>
  C2. For a resolution \<open>n \<ge> 2\<close> the call returns exactly \<open>n\<^sup>2\<close> vertices and
  \<open>2 * (n - 1)\<^sup>2\<close> faces; and \<^verbatim>\<open>generate_superquadric_mesh(1, 1, 1, 1, 1, 4)\<close> returns
  16 vertices and 18 faces, every coordinate being a finite number of \<open>[-1, 1]\<close>.
\<close>

theorem mesh_counts:
  "(2 \<le> n \<longrightarrow> (\<exists>vs fs. generate_superquadric_mesh a1 a2 a3 e1 e2 n = Inr (vs, fs)
        \<and> int (length vs) = n\<^sup>2 \<and> int (length fs) = 2 * (n - 1)\<^sup>2))
   \<and> (\<exists>vs fs. generate_superquadric_mesh 1 1 1 1 1 4 = Inr (vs, fs)
        \<and> length vs = 16 \<and> length fs = 18
        \<and> (\<forall>v\<in>set vs. case v of (x, y, z) \<Rightarrow>
              finite_within (- 1) 1 x \<and> finite_within (- 1) 1 y \<and> finite_within (- 1) 1 z))"
proof (intro conjI impI)
  assume n: "2 \<le> n"
  from mesh_grid_flat [OF n, of a1 a2 a3 e1 e2] obtain vs where
    gen: "generate_superquadric_mesh a1 a2 a3 e1 e2 n = Inr (vs, build_faces n)"
    and len: "length vs = nat n * nat n" by blast
  have "int (length vs) = n\<^sup>2" using len n by (simp add: power2_eq_square)
  moreover have "int (length (build_faces n)) = 2 * (n - 1)\<^sup>2"
    using n by (simp add: length_build_faces power2_eq_square)
  ultimately show "\<exists>vs fs. generate_superquadric_mesh a1 a2 a3 e1 e2 n = Inr (vs, fs)
        \<and> int (length vs) = n\<^sup>2 \<and> int (length fs) = 2 * (n - 1)\<^sup>2"
    using gen by blast
next
  from mesh_grid_flat [of 4 1 1 1 1 1] obtain vs where
    gen: "generate_superquadric_mesh 1 1 1 1 1 4 = Inr (vs, build_faces 4)"
    and len: "length vs = nat 4 * nat 4"
    and pts: "\<And>k. k < nat 4 * nat 4 \<Longrightarrow> vs ! k = superquadric_point 1 1 1 1 1
                     (uniform_sample (- pi / 2) (pi / 2) 4 (k mod nat 4))
                     (uniform_sample (- pi) pi 4 (k div nat 4))"
    by auto
  have "case v of (x, y, z) \<Rightarrow>
              finite_within (- 1) 1 x \<and> finite_within (- 1) 1 y \<and> finite_within (- 1) 1 z"
    if "v \<in> set vs" for v
  proof -
    from that obtain k where "k < length vs" "v = vs ! k" by (auto simp: in_set_conv_nth)
    with len pts [of k] show ?thesis by (simp only: unit_point_within)
  qed
  moreover have "length vs = 16" using len by simp
  moreover have "length (build_faces 4) = 18" by (simp add: length_build_faces)
  ultimately show "\<exists>vs fs. generate_superquadric_mesh 1 1 1 1 1 4 = Inr (vs, fs)
        \<and> length vs = 16 \<and> length fs = 18
        \<and> (\<forall>v\<in>set vs. case v of (x, y, z) \<Rightarrow>
              finite_within (- 1) 1 x \<and> finite_within (- 1) 1 y \<and> finite_within (- 1) 1 z)"
    using gen by blast
qed

theorem mesh_counts_witness:
  "(2::int) \<le> 3
   \<and> (\<exists>vs fs. generate_superquadric_mesh 1 2 3 1 1 3 = Inr (vs, fs)
        \<and> int (length vs) = 9 \<and> int (length fs) = 8)
   \<and> (\<exists>vs fs. generate_superquadric_mesh 1 1 1 1 1 4 = Inr (vs, fs) \<and> vs \<noteq> []
        \<and> (case hd vs of (x, y, z) \<Rightarrow>
              finite_within (- 1) 1 x \<and> finite_within (- 1) 1 y \<and> finite_within (- 1) 1 z))"
proof -
  have h: "(2::int) \<le> 3" by simp
  have "2 \<le> (3::int) \<longrightarrow> (\<exists>vs fs. generate_superquadric_mesh 1 2 3 1 1 3 = Inr (vs, fs)
        \<and> int (length vs) = 3\<^sup>2 \<and> int (length fs) = 2 * (3 - 1)\<^sup>2)"
    using mesh_counts [of 3 1 2 3 1 1] by (rule conjunct1)
  then have a: "\<exists>vs fs. generate_superquadric_mesh 1 2 3 1 1 3 = Inr (vs, fs)
        \<and> int (length vs) = 9 \<and> int (length fs) = 8"
    by simp
  have "\<exists>vs fs. generate_superquadric_mesh 1 1 1 1 1 4 = Inr (vs, fs)
        \<and> length vs = 16 \<and> length fs = 18
        \<and> (\<forall>v\<in>set vs. case v of (x, y, z) \<Rightarrow>
              finite_within (- 1) 1 x \<and> finite_within (- 1) 1 y \<and> finite_within (- 1) 1 z)"
    using mesh_counts [of 3 1 2 3 1 1] by (rule conjunct2)
  then obtain vs fs where
    gen: "generate_superquadric_mesh 1 1 1 1 1 4 = Inr (vs, fs)" and len: "length vs = 16"
    and all: "\<forall>v\<in>set vs. case v of (x, y, z) \<Rightarrow>
              finite_within (- 1) 1 x \<and> finite_within (- 1) 1 y \<and> finite_within (- 1) 1 z"
    by (elim exE conjE)
  from len have ne: "vs \<noteq> []" by auto
  then have "hd vs \<in> set vs" by simp
  with all have p: "case hd vs of (x, y, z) \<Rightarrow>
              finite_within (- 1) 1 x \<and> finite_within (- 1) 1 y \<and> finite_within (- 1) 1 z"
    by (rule bspec)
  have b: "\<exists>vs fs. generate_superquadric_mesh 1 1 1 1 1 4 = Inr (vs, fs) \<and> vs \<noteq> []
        \<and> (case hd vs of (x, y, z) \<Rightarrow>
              finite_within (- 1) 1 x \<and> finite_within (- 1) 1 y \<and> finite_within (- 1) 1 z)"
    using gen ne p by (intro exI [of _ vs] exI [of _ fs] conjI)
  from h a b show ?thesis by (intro conjI)
qed

text \<open>
  C3. For a resolution \<open>n \<ge> 2\<close> the list of faces is, cell by cell for \<open>i = 0, \<dots>, n - 2\<close>
  and within that \<open>j = 0, \<dots>, n - 2\<close>, with \<open>idx = i * n + j\<close>, the two triangles
  \<open>[idx, idx + 1, idx + n]\<close> and \<open>[idx + 1, idx + n + 1, idx + n]\<close>, and nothing else.
  No face is stitched across a seam: the corners of a face lie in the same or in
  neighbouring rows and columns of the grid.
\<close>

theorem faces_cell_by_cell:
  assumes n: "2 \<le> n"
  shows "\<exists>vs fs. generate_superquadric_mesh a1 a2 a3 e1 e2 n = Inr (vs, fs)
           \<and> fs = concat (map (\<lambda>i. concat (map (\<lambda>j.
                      [[i * n + j, i * n + j + 1, i * n + j + n],
                       [i * n + j + 1, i * n + j + n + 1, i * n + j + n]])
                    (map int [0..<nat (n - 1)])))
                  (map int [0..<nat (n - 1)]))
           \<and> (\<forall>f\<in>set fs. \<forall>a\<in>set f. \<forall>b\<in>set f.
                 \<bar>a mod n - b mod n\<bar> \<le> 1 \<and> \<bar>a div n - b div n\<bar> \<le> 1)"
proof -
  from mesh_grid [OF n, of a1 a2 a3 e1 e2] obtain vs where
    gen: "generate_superquadric_mesh a1 a2 a3 e1 e2 n = Inr (vs, build_faces n)" by blast
  have list: "build_faces n = concat (map (\<lambda>i. concat (map (\<lambda>j.
                      [[i * n + j, i * n + j + 1, i * n + j + n],
                       [i * n + j + 1, i * n + j + n + 1, i * n + j + n]])
                    (map int [0..<nat (n - 1)])))
                  (map int [0..<nat (n - 1)]))"
    unfolding build_faces_concat cell_faces_def range_py_def ..
  have near: "\<bar>a mod n - b mod n\<bar> \<le> 1 \<and> \<bar>a div n - b div n\<bar> \<le> 1"
    if f: "f \<in> set (build_faces n)" and a: "a \<in> set f" and b: "b \<in> set f" for f a b
  proof -
    from face_in_cell [OF f] obtain i j where
      j: "0 \<le> j" "j \<le> n - 2" and c: "f \<in> set (cell_faces n i j)" by blast
    from cell_members [OF j c a] cell_members [OF j c b] show ?thesis by auto
  qed
  from gen list near show ?thesis by (metis (no_types, lifting))
qed

theorem faces_cell_by_cell_witness:
  "(2::int) \<le> 2
   \<and> (\<exists>vs fs. generate_superquadric_mesh 1 2 3 1 1 2 = Inr (vs, fs)
        \<and> fs = [[0, 1, 2], [1, 3, 2]]
        \<and> (\<forall>f\<in>set fs. \<forall>a\<in>set f. \<forall>b\<in>set f.
              \<bar>a mod 2 - b mod 2\<bar> \<le> 1 \<and> \<bar>a div 2 - b div 2\<bar> \<le> 1))"
proof -
  have h: "(2::int) \<le> 2" by simp
  from faces_cell_by_cell [OF h, of 1 2 3 1 1] obtain vs fs where
    gen: "generate_superquadric_mesh 1 2 3 1 1 2 = Inr (vs, fs)"
    and fs: "fs = concat (map (\<lambda>i. concat (map (\<lambda>j.
                      [[i * 2 + j, i * 2 + j + 1, i * 2 + j + 2],
                       [i * 2 + j + 1, i * 2 + j + 2 + 1, i * 2 + j + 2]])
                    (map int [0..<nat (2 - 1)])))
                  (map int [0..<nat (2 - 1)]))"
    and near: "\<forall>f\<in>set fs. \<forall>a\<in>set f. \<forall>b\<in>set f.
                 \<bar>a mod 2 - b mod 2\<bar> \<le> 1 \<and> \<bar>a div 2 - b div 2\<bar> \<le> 1"
    by blast
  from fs have "fs = [[0, 1, 2], [1, 3, 2]]" by simp
  with gen near h show ?thesis by blast
qed

text \<open>
  C4. For a resolution \<open>n \<ge> 2\<close> every face is a triple of indices, each of them in
  \<open>[0, n\<^sup>2)\<close> and so a position of the returned vertex sequence.
\<close>

theorem face_indices_valid:
  assumes n: "2 \<le> n"
  shows "\<exists>vs fs. generate_superquadric_mesh a1 a2 a3 e1 e2 n = Inr (vs, fs)
           \<and> (\<forall>f\<in>set fs. length f = 3
                 \<and> (\<forall>a\<in>set f. 0 \<le> a \<and> a < n\<^sup>2 \<and> nat a < length vs))"
proof -
  from mesh_grid [OF n, of a1 a2 a3 e1 e2] obtain vs where
    gen: "generate_superquadric_mesh a1 a2 a3 e1 e2 n = Inr (vs, build_faces n)"
    and len: "length vs = nat n * nat n" by blast
  have len': "int (length vs) = n\<^sup>2" using len n by (simp add: power2_eq_square)
  have "length f = 3 \<and> (\<forall>a\<in>set f. 0 \<le> a \<and> a < n\<^sup>2 \<and> nat a < length vs)"
    if f: "f \<in> set (build_faces n)" for f
  proof -
    from face_in_cell [OF f] obtain i j where
      i: "0 \<le> i" "i \<le> n - 2" and j: "0 \<le> j" "j \<le> n - 2"
      and c: "f \<in> set (cell_faces n i j)" by blast
    have "length f = 3" using c by (auto simp: cell_faces_def)
    moreover have "0 \<le> a \<and> a < n\<^sup>2 \<and> nat a < length vs" if "a \<in> set f" for a
      using cell_bounds [OF i j c that] len' by linarith
    ultimately show ?thesis by blast
  qed
  with gen show ?thesis by blast
qed

theorem face_indices_valid_witness:
  "(2::int) \<le> 5
   \<and> (\<exists>vs fs. generate_superquadric_mesh 1 2 3 1 1 5 = Inr (vs, fs)
           \<and> (\<forall>f\<in>set fs. length f = 3
                 \<and> (\<forall>a\<in>set f. 0 \<le> a \<and> a < 5\<^sup>2 \<and> nat a < length vs)))"
proof -
  have h: "(2::int) \<le> 5" by simp
  show ?thesis using h face_indices_valid [OF h, of 1 2 3 1 1] by blast
qed

text \<open>
  C6, as stated: the vertex at flat index \<open>i * n + j\<close> is the surface point
  at \<open>(phi_i, theta_j)\<close>. It fails for \<open>n = 2\<close> at \<open>i = 0\<close>, \<open>j = 1\<close> with unit semi-axes
  and exponents: the vertex at index 1 is \<open>(0, 0, 1)\<close>, the point at
  \<open>(phi_0, theta_1) = (-pi/2, pi)\<close> is \<open>(0, 0, -1)\<close>.
\<close>

theorem row_major_phi_counterexample:
  "generate_superquadric_mesh 1 1 1 1 1 2
     = Inr ([(Some 0, Some 0, Some (- 1)), (Some 0, Some 0, Some 1),
             (Some 0, Some 0, Some (- 1)), (Some 0, Some 0, Some 1)],
            [[0, 1, 2], [1, 3, 2]])
   \<and> [(Some 0, Some 0, Some (- 1)), (Some 0, Some 0, Some 1),
       (Some 0, Some 0, Some (- 1)), (Some 0, Some 0, Some (1::real))] ! (0 * 2 + 1)
     \<noteq> superquadric_point 1 1 1 1 1
         (uniform_sample (- pi / 2) (pi / 2) 2 0) (uniform_sample (- pi) pi 2 1)"
  by (simp add: mesh_2 unit_point uniform_sample_def)

text \<open>
  C6, amended. \<^verbatim>\<open>np.meshgrid\<close> in its default indexing lets the second argument, the
  \<open>theta\<close> samples, vary along the rows. For a resolution \<open>n \<ge> 2\<close> the flattened vertex
  sequence is row-major with rows indexed by the \<open>theta\<close> sweep and columns by the \<open>phi\<close>
  sweep: the vertex at flat index \<open>i * n + j\<close> is the surface point at
  \<open>(phi_j, theta_i)\<close>.
\<close>

theorem vertices_row_major_theta:
  assumes n: "2 \<le> n"
  shows "\<exists>vs fs. generate_superquadric_mesh a1 a2 a3 e1 e2 n = Inr (vs, fs)
           \<and> length vs = nat n * nat n
           \<and> (\<forall>i<nat n. \<forall>j<nat n. vs ! (i * nat n + j)
                 = superquadric_point a1 a2 a3 e1 e2
                     (uniform_sample (- pi / 2) (pi / 2) n j) (uniform_sample (- pi) pi n i))"
  using mesh_grid [OF n, of a1 a2 a3 e1 e2] by blast

theorem vertices_row_major_theta_witness:
  "(2::int) \<le> 2
   \<and> (\<exists>vs fs. generate_superquadric_mesh 1 1 1 1 1 2 = Inr (vs, fs)
        \<and> vs ! (0 * 2 + 1) = (Some 0, Some 0, Some 1))"
proof -
  have h: "(2::int) \<le> 2" by simp
  from vertices_row_major_theta [OF h, of 1 1 1 1 1] obtain vs fs where
    gen: "generate_superquadric_mesh 1 1 1 1 1 2 = Inr (vs, fs)"
    and pts: "\<forall>i<nat 2. \<forall>j<nat 2. vs ! (i * nat 2 + j)
                 = superquadric_point 1 1 1 1 1
                     (uniform_sample (- pi / 2) (pi / 2) 2 j) (uniform_sample (- pi) pi 2 i)"
    by blast
  have "vs ! (0 * nat 2 + 1) = superquadric_point 1 1 1 1 1
                     (uniform_sample (- pi / 2) (pi / 2) 2 1) (uniform_sample (- pi) pi 2 0)"
    using pts [rule_format, of 0 1] by simp
  then have "vs ! (0 * 2 + 1) = (Some 0, Some 0, Some 1)"
    by (simp add: unit_point uniform_sample_def)
  with gen h show ?thesis by blast
qed

text \<open>
  C7. With unit semi-axes and \<open>e1 = e2 = 1\<close>, for a resolution \<open>n \<ge> 2\<close> every vertex has
  finite coordinates and lies on the unit sphere: \<open>x\<^sup>2 + y\<^sup>2 + z\<^sup>2 = 1\<close> over the reals.
\<close>

theorem unit_sphere:
  assumes n: "2 \<le> n"
  shows "\<exists>vs fs. generate_superquadric_mesh 1 1 1 1 1 n = Inr (vs, fs)
           \<and> (\<forall>v\<in>set vs. norm_sq v = Some 1)"
proof -
  from mesh_grid_flat [OF n, of 1 1 1 1 1] obtain vs where
    gen: "generate_superquadric_mesh 1 1 1 1 1 n = Inr (vs, build_faces n)"
    and len: "length vs = nat n * nat n"
    and pts: "\<And>k. k < nat n * nat n \<Longrightarrow> vs ! k = superquadric_point 1 1 1 1 1
                     (uniform_sample (- pi / 2) (pi / 2) n (k mod nat n))
                     (uniform_sample (- pi) pi n (k div nat n))"
    by blast
  have "norm_sq v = Some 1" if "v \<in> set vs" for v
  proof -
    from that obtain k where "k < length vs" "v = vs ! k" by (auto simp: in_set_conv_nth)
    with len pts [of k] show ?thesis by (simp only: unit_point_norm)
  qed
  with gen show ?thesis by blast
qed

theorem unit_sphere_witness:
  "(2::int) \<le> 4
   \<and> (\<exists>vs fs. generate_superquadric_mesh 1 1 1 1 1 4 = Inr (vs, fs)
        \<and> vs \<noteq> [] \<and> norm_sq (hd vs) = Some 1)"
proof -
  have h: "(2::int) \<le> 4" by simp
  from unit_sphere [OF h] obtain vs fs where
    gen: "generate_superquadric_mesh 1 1 1 1 1 4 = Inr (vs, fs)"
    and all: "\<forall>v\<in>set vs. norm_sq v = Some 1" by blast
  from mesh_grid_flat [OF h, of 1 1 1 1 1] gen have "length vs = nat 4 * nat 4" by auto
  then have ne: "vs \<noteq> []" by auto
  then have "hd vs \<in> set vs" by simp
  with all gen ne h show ?thesis by blast
qed

text \<open>
  C8. For positive semi-axes, a resolution \<open>n \<ge> 2\<close> and exponents in \<open>[0.1, 1.9]\<close>, the
  edges 0.1 and 1.9 included, every coordinate of every vertex is a finite number: the
  power is only taken of an absolute value, with a positive exponent, so that it yields
  neither NaN nor an infinity.
\<close>

theorem vertices_finite:
  assumes a: "0 < a1" "0 < a2" "0 < a3" and n: "2 \<le> n"
    and e1: "1 / 10 \<le> e1" "e1 \<le> 19 / 10" and e2: "1 / 10 \<le> e2" "e2 \<le> 19 / 10"
  shows "\<exists>vs fs. generate_superquadric_mesh a1 a2 a3 e1 e2 n = Inr (vs, fs)
           \<and> (\<forall>v\<in>set vs. case v of (x, y, z) \<Rightarrow> is_finite x \<and> is_finite y \<and> is_finite z)"
proof -
  from mesh_grid_flat [OF n, of a1 a2 a3 e1 e2] obtain vs where
    gen: "generate_superquadric_mesh a1 a2 a3 e1 e2 n = Inr (vs, build_faces n)"
    and len: "length vs = nat n * nat n"
    and pts: "\<And>k. k < nat n * nat n \<Longrightarrow> vs ! k = superquadric_point a1 a2 a3 e1 e2
                     (uniform_sample (- pi / 2) (pi / 2) n (k mod nat n))
                     (uniform_sample (- pi) pi n (k div nat n))"
    by blast
  have e: "0 \<le> e1" "0 \<le> e2" using e1 e2 by simp_all
  have "case v of (x, y, z) \<Rightarrow> is_finite x \<and> is_finite y \<and> is_finite z"
    if "v \<in> set vs" for v
  proof -
    from that obtain k where "k < length vs" "v = vs ! k" by (auto simp: in_set_conv_nth)
    with len pts [of k] show ?thesis by (simp only: point_finite [OF e])
  qed
  with gen show ?thesis by blast
qed

theorem vertices_finite_witness:
  "(0::real) < 1 \<and> (0::real) < 2 \<and> (0::real) < 3 \<and> (2::int) \<le> 3
   \<and> (1::real) / 10 \<le> 1 / 10 \<and> (1::real) / 10 \<le> 19 / 10
   \<and> (1::real) / 10 \<le> 19 / 10 \<and> (19::real) / 10 \<le> 19 / 10
   \<and> (\<exists>vs fs. generate_superquadric_mesh 1 2 3 (1 / 10) (19 / 10) 3 = Inr (vs, fs)
        \<and> (\<forall>v\<in>set vs. case v of (x, y, z) \<Rightarrow> is_finite x \<and> is_finite y \<and> is_finite z))"
  using vertices_finite [of 1 2 3 3 "1 / 10" "19 / 10"] by simp

text \<open>
  C10, as stated: vertex \<open>k\<close> of the mesh with semi-axes \<open>a1, a2, a3\<close> equals the
  componentwise product \<open>(a1 * x, a2 * y, a3 * z)\<close> of vertex \<open>k = (x, y, z)\<close> of the mesh
  with unit semi-axes. In the doubles the code computes with this fails for
  \<^verbatim>\<open>(1, 5, 1, 1, 1, 2)\<close> at vertex 0, the point of the first samples: its \<open>y\<close> is
  \<open>((((5 * 1) * p) * (-1)) * q\<close> rounded after every product,
  \<^verbatim>\<open>-0x1.855c226ecf49bp-105\<close>, while 5 times the \<open>y\<close> of the unit mesh is
  \<^verbatim>\<open>-0x1.855c226ecf49ap-105\<close>: the products of doubles do not associate.
\<close>

theorem scaling_double_counterexample:
  "double_coordinate 5 cos_phi0_double \<bar>cos_phi0_double\<bar> sin_theta0_double \<bar>sin_theta0_double\<bar>
     = Some (- (6849691806135451 / 2 ^ 157))
   \<and> double_mul (Some 5)
        (double_coordinate 1 cos_phi0_double \<bar>cos_phi0_double\<bar>
           sin_theta0_double \<bar>sin_theta0_double\<bar>)
     = Some (- (6849691806135450 / 2 ^ 157))
   \<and> double_coordinate 5 cos_phi0_double \<bar>cos_phi0_double\<bar>
         sin_theta0_double \<bar>sin_theta0_double\<bar>
     \<noteq> double_mul (Some 5)
        (double_coordinate 1 cos_phi0_double \<bar>cos_phi0_double\<bar>
           sin_theta0_double \<bar>sin_theta0_double\<bar>)"
  by (simp only: double_coordinate_def sample_signs scaled_steps unit_steps) simp

text \<open>
  C10, amended. For a resolution \<open>n \<ge> 2\<close> the faces are the same for all semi-axes and
  exponents, and in exact real arithmetic, where a product neither rounds nor overflows,
  vertex \<open>k\<close> of the mesh with semi-axes \<open>a1, a2, a3\<close> is the componentwise product
  \<open>(a1 * x, a2 * y, a3 * z)\<close> of vertex \<open>k = (x, y, z)\<close> of the mesh with unit semi-axes
  and the same exponents. Nothing is said of the last bit of the doubles.
\<close>

theorem faces_fixed_vertices_scale:
  assumes n: "2 \<le> n"
  shows "\<exists>vs vs' vs1 fs.
           generate_superquadric_mesh a1 a2 a3 e1 e2 n = Inr (vs, fs)
           \<and> generate_superquadric_mesh a1' a2' a3' e1' e2' n = Inr (vs', fs)
           \<and> generate_superquadric_mesh 1 1 1 e1 e2 n = Inr (vs1, fs)
           \<and> length vs1 = length vs
           \<and> (\<forall>k<length vs. vs ! k = scale_vertex a1 a2 a3 (vs1 ! k))"
proof -
  from mesh_grid_flat [OF n, of a1 a2 a3 e1 e2] obtain vs where
    gen: "generate_superquadric_mesh a1 a2 a3 e1 e2 n = Inr (vs, build_faces n)"
    and len: "length vs = nat n * nat n"
    and pts: "\<And>k. k < nat n * nat n \<Longrightarrow> vs ! k = superquadric_point a1 a2 a3 e1 e2
                     (uniform_sample (- pi / 2) (pi / 2) n (k mod nat n))
                     (uniform_sample (- pi) pi n (k div nat n))"
    by blast
  from mesh_grid_flat [OF n, of a1' a2' a3' e1' e2'] obtain vs' where
    gen': "generate_superquadric_mesh a1' a2' a3' e1' e2' n = Inr (vs', build_faces n)"
    by blast
  from mesh_grid_flat [OF n, of 1 1 1 e1 e2] obtain vs1 where
    gen1: "generate_superquadric_mesh 1 1 1 e1 e2 n = Inr (vs1, build_faces n)"
    and len1: "length vs1 = nat n * nat n"
    and pts1: "\<And>k. k < nat n * nat n \<Longrightarrow> vs1 ! k = superquadric_point 1 1 1 e1 e2
                     (uniform_sample (- pi / 2) (pi / 2) n (k mod nat n))
                     (uniform_sample (- pi) pi n (k div nat n))"
    by blast
  have "vs ! k = scale_vertex a1 a2 a3 (vs1 ! k)" if "k < length vs" for k
    using that len pts [of k] pts1 [of k] by (simp only: point_scaling [symmetric])
  with gen gen' gen1 len len1 show ?thesis by (metis (no_types, lifting))
qed

theorem faces_fixed_vertices_scale_witness:
  "(2::int) \<le> 2
   \<and> (\<exists>vs vs' vs1 fs.
           generate_superquadric_mesh 1 2 3 (1 / 2) 1 2 = Inr (vs, fs)
           \<and> generate_superquadric_mesh 4 5 6 1 (3 / 2) 2 = Inr (vs', fs)
           \<and> generate_superquadric_mesh 1 1 1 (1 / 2) 1 2 = Inr (vs1, fs)
           \<and> length vs1 = length vs
           \<and> (\<forall>k<length vs. vs ! k = scale_vertex 1 2 3 (vs1 ! k)))"
proof -
  have h: "(2::int) \<le> 2" by simp
  show ?thesis
    using h faces_fixed_vertices_scale [OF h, of 1 2 3 "1 / 2" 1 4 5 6 1 "3 / 2"] by blast
qed

section \<open>Properties of saving and loading\<close>

text \<open>
  C9. Whenever \<^verbatim>\<open>save_object\<close> can write (the output file is absent or holds a JSON
  array), it appends one object whose \<^verbatim>\<open>"superquadrics"\<close> list consists of the data of
  exactly those entries of \<^verbatim>\<open>self.sqs\<close> all of whose three semi-axes are nonzero, in
  their original order: an entry with a zero semi-axis is left out, and no other entry is.
\<close>

theorem save_object_omits_zero_axes:
  assumes ex: "fs OUTPUT_JSON = None \<or> fs OUTPUT_JSON = Some (JArr entries)"
  shows "\<exists>fs' old. save_object self fs = Inr fs'
           \<and> fs' OUTPUT_JSON = Some (JArr (old @
                 [JObj [(''description'', JStr (textbox_text_value self)),
                        (''superquadrics'',
                           JArr (map sq_data (filter nonzero_axes (win_sqs self))))]]))"
  using ex
proof
  assume "fs OUTPUT_JSON = None"
  then show ?thesis
    by (simp only: save_object_new_file saved_superquadrics_filter) simp
next
  assume "fs OUTPUT_JSON = Some (JArr entries)"
  then show ?thesis
    by (simp only: save_object_append saved_superquadrics_filter) simp
qed

theorem save_object_omits_zero_axes_witness:
  "(Map.empty OUTPUT_JSON = None \<or> Map.empty OUTPUT_JSON = Some (JArr []))
   \<and> (\<exists>fs' old. save_object \<lparr>textbox_text_value = ''two'',
                       win_sqs = [unit_sq, unit_sq\<lparr>sq_a2 := 0\<rparr>, unit_sq\<lparr>sq_x := 5\<rparr>]\<rparr>
                     Map.empty = Inr fs'
           \<and> fs' OUTPUT_JSON = Some (JArr (old @
                 [JObj [(''description'', JStr ''two''),
                        (''superquadrics'',
                           JArr [sq_data unit_sq, sq_data (unit_sq\<lparr>sq_x := 5\<rparr>)])]])))"
proof -
  let ?w = "\<lparr>textbox_text_value = ''two'',
             win_sqs = [unit_sq, unit_sq\<lparr>sq_a2 := 0\<rparr>, unit_sq\<lparr>sq_x := 5\<rparr>]\<rparr>"
  have h: "Map.empty OUTPUT_JSON = None \<or> Map.empty OUTPUT_JSON = Some (JArr [])" by simp
  have f: "map sq_data (filter nonzero_axes (win_sqs ?w))
      = [sq_data unit_sq, sq_data (unit_sq\<lparr>sq_x := 5\<rparr>)]"
    by (simp add: nonzero_axes_def unit_sq_def)
  have t: "textbox_text_value ?w = ''two''" by simp
  have "\<exists>fs' old. save_object ?w Map.empty = Inr fs'
           \<and> fs' OUTPUT_JSON = Some (JArr (old @
                 [JObj [(''description'', JStr (textbox_text_value ?w)),
                        (''superquadrics'',
                           JArr (map sq_data (filter nonzero_axes (win_sqs ?w))))]]))"
    by (rule save_object_omits_zero_axes [OF h])
  then have "\<exists>fs' old. save_object ?w Map.empty = Inr fs'
           \<and> fs' OUTPUT_JSON = Some (JArr (old @
                 [JObj [(''description'', JStr ''two''),
                        (''superquadrics'',
                           JArr [sq_data unit_sq, sq_data (unit_sq\<lparr>sq_x := 5\<rparr>)])]]))"
    unfolding f t .
  with h show ?thesis by (intro conjI)
qed

text \<open>
  C5, as stated: saving with \<^verbatim>\<open>save_object\<close> and reloading the file with
  \<^verbatim>\<open>load_superquadrics\<close> succeeds. It fails for a single entry with unit semi-axes and
  no earlier file: \<^verbatim>\<open>save_object\<close> writes a JSON array, and
  \<^verbatim>\<open>data['components']\<close> on a list raises \<^verbatim>\<open>TypeError\<close>.
\<close>

theorem save_then_load_counterexample:
  "save_object \<lparr>textbox_text_value = '''', win_sqs = [unit_sq]\<rparr> Map.empty
     = Inr [OUTPUT_JSON \<mapsto> JArr [JObj [(''description'', JStr ''''),
                                       (''superquadrics'', JArr [sq_data unit_sq])]]]
   \<and> load_superquadrics unit_sq OUTPUT_JSON
         [OUTPUT_JSON \<mapsto> JArr [JObj [(''description'', JStr ''''),
                                     (''superquadrics'', JArr [sq_data unit_sq])]]]
     = Inl TypeError"
  by (simp add: save_object_new_file saved_superquadrics_filter nonzero_axes_def unit_sq_def
      load_array_fails)

text \<open>
  C5, amended. For entries whose semi-axes are all nonzero, and an output file that is
  absent or holds a JSON array, \<^verbatim>\<open>save_object\<close> succeeds and appends an object whose
  \<^verbatim>\<open>"superquadrics"\<close> list \<open>comps\<close> has one component per entry, in order.
  \<^verbatim>\<open>load_superquadrics\<close> on the file written raises \<^verbatim>\<open>TypeError\<close>; applied to a
  file that holds \<open>comps\<close> under the key \<^verbatim>\<open>"components"\<close> of an object, the format it
  reads, it succeeds and reproduces for each entry identical scale, position and rotation
  values, and \<^verbatim>\<open>epsilon1\<close>, \<^verbatim>\<open>epsilon2\<close> rounded to 2 decimal places.
\<close>

theorem save_then_load:
  assumes nz: "\<forall>sq\<in>set (win_sqs self). nonzero_axes sq"
    and ex: "fs OUTPUT_JSON = None \<or> fs OUTPUT_JSON = Some (JArr entries)"
  shows "\<exists>fs' old comps. save_object self fs = Inr fs'
           \<and> fs' OUTPUT_JSON = Some (JArr (old @
                 [JObj [(''description'', JStr (textbox_text_value self)),
                        (''superquadrics'', JArr comps)]]))
           \<and> load_superquadrics fresh OUTPUT_JSON fs' = Inl TypeError
           \<and> load_superquadrics fresh path (fs'(path \<mapsto> JObj [(''components'', JArr comps)]))
               = Inr (map rounded (win_sqs self))"
proof -
  let ?comps = "map sq_data (win_sqs self)"
  let ?new = "JObj [(''description'', JStr (textbox_text_value self)),
                    (''superquadrics'', JArr ?comps)]"
  have all: "filter nonzero_axes (win_sqs self) = win_sqs self"
    using nz by (simp add: filter_id_conv)
  have saved: "saved_superquadrics self = ?comps"
    by (simp only: saved_superquadrics_filter all)
  obtain old where save: "save_object self fs = Inr (fs(OUTPUT_JSON \<mapsto> JArr (old @ [?new])))"
    using ex save_object_new_file [of fs self] save_object_append [of fs entries self]
    unfolding saved by blast
  let ?fs' = "fs(OUTPUT_JSON \<mapsto> JArr (old @ [?new]))"
  have file': "?fs' OUTPUT_JSON = Some (JArr (old @ [?new]))" by simp
  have fails: "load_superquadrics fresh OUTPUT_JSON ?fs' = Inl TypeError"
    using file' by (rule load_array_fails)
  have loads: "load_superquadrics fresh path (?fs'(path \<mapsto> JObj [(''components'', JArr ?comps)]))
      = Inr (map rounded (win_sqs self))"
    by (rule load_components_saved)
  from save file' fails loads show ?thesis by blast
qed

theorem save_then_load_witness:
  "nonzero_axes (unit_sq\<lparr>sq_e1 := 1 / 8\<rparr>)
   \<and> (Map.empty OUTPUT_JSON = None \<or> Map.empty OUTPUT_JSON = Some (JArr []))
   \<and> (\<exists>fs' old comps.
         save_object \<lparr>textbox_text_value = ''one'', win_sqs = [unit_sq\<lparr>sq_e1 := 1 / 8\<rparr>]\<rparr>
           Map.empty = Inr fs'
         \<and> fs' OUTPUT_JSON = Some (JArr (old @
                 [JObj [(''description'', JStr ''one''), (''superquadrics'', JArr comps)]]))
         \<and> load_superquadrics unit_sq OUTPUT_JSON fs' = Inl TypeError
         \<and> load_superquadrics unit_sq ''example.json''
               (fs'(''example.json'' \<mapsto> JObj [(''components'', JArr comps)]))
             = Inr [unit_sq\<lparr>sq_e1 := 12 / 100\<rparr>])"
proof -
  let ?w = "\<lparr>textbox_text_value = ''one'', win_sqs = [unit_sq\<lparr>sq_e1 := 1 / 8\<rparr>]\<rparr>"
  have nz: "\<forall>sq\<in>set (win_sqs ?w). nonzero_axes sq"
    by (simp add: nonzero_axes_def unit_sq_def)
  have h: "Map.empty OUTPUT_JSON = None \<or> Map.empty OUTPUT_JSON = Some (JArr [])" by simp
  have r: "map rounded (win_sqs ?w) = [unit_sq\<lparr>sq_e1 := 12 / 100\<rparr>]"
    by (simp add: rounded_def unit_sq_def py_round2_def)
  from save_then_load [OF nz h, of unit_sq "''example.json''"]
  have "\<exists>fs' old comps.
         save_object ?w Map.empty = Inr fs'
         \<and> fs' OUTPUT_JSON = Some (JArr (old @
                 [JObj [(''description'', JStr ''one''), (''superquadrics'', JArr comps)]]))
         \<and> load_superquadrics unit_sq OUTPUT_JSON fs' = Inl TypeError
         \<and> load_superquadrics unit_sq ''example.json''
               (fs'(''example.json'' \<mapsto> JObj [(''components'', JArr comps)]))
             = Inr [unit_sq\<lparr>sq_e1 := 12 / 100\<rparr>]"
    unfolding r by simp
  moreover have "nonzero_axes (unit_sq\<lparr>sq_e1 := 1 / 8\<rparr>)"
    using nz by simp
  ultimately show ?thesis using h by (intro conjI)
qed

end
